theory Spec2Isabelle
  imports Complex_Main "HOL-Library.Sublist"
begin

section \<open>Strings\<close>

text \<open>
  A JavaScript string is a sequence of UTF-16 code units. It is represented here by a
  \<^typ>\<open>string\<close> in which every code unit below 128 is one \<^typ>\<open>char\<close> and every other
  code unit is a sequence of two or three \<^typ>\<open>char\<close>s at or above 128, as in UTF-8
  applied to each code unit on its own. The representation is injective and commutes with
  concatenation, so \<open>===\<close>, \<open>Set.has\<close>, template literals, \<open>join\<close> and the truthiness of a
  string (being non-empty) are the operations of the same name on \<^typ>\<open>string\<close>.
\<close>

definition newline :: char where
  "newline = CHR 0x0A"

section \<open>Messages (src/types.ts)\<close>

text \<open>
  Modelled from the spec: the declaration of \<open>ChatMessage\<close> lives in \<open>src/types.ts\<close>,
  which is not among the sources; the specification gives a message a role and a text
  content. The role is kept as a string, so that the branch of \<open>buildModelInput\<close> for a role
  that is neither \<open>user\<close> nor \<open>assistant\<close> can be reached.
\<close>

record ChatMessage =
  role :: string
  content :: string

section \<open>buildModelInput (src/index.ts)\<close>

definition SYSTEM_PROMPT :: string where
  "SYSTEM_PROMPT =
     ''You are a helpful, friendly assistant. Provide concise and accurate responses.''"

definition SAFETY_SHIM :: string where
  "SAFETY_SHIM =
     ''If a user asks for illegal, violent, or harmful instructions, refuse briefly and suggest safer, educational alternatives.''"

text \<open>
  The regular expression \<open>/blocked by guardrails/i\<close>. Without the \<open>u\<close> flag, two code
  units match under \<open>i\<close> when their canonical forms (upper case) agree, and a code unit at
  or above 128 never has a canonical form below 128; the pattern is ASCII, so only the
  ASCII letters need folding.
\<close>

definition canonicalize :: "char \<Rightarrow> char" where
  "canonicalize c =
     (let n = (of_char c :: nat)
      in if 97 \<le> n \<and> n \<le> 122 then char_of (n - 32) else c)"

fun matches_here :: "string \<Rightarrow> string \<Rightarrow> bool" where
  "matches_here [] s = True"
| "matches_here (p # ps) [] = False"
| "matches_here (p # ps) (c # cs) =
     (canonicalize c = canonicalize p \<and> matches_here ps cs)"

fun test_ignore_case :: "string \<Rightarrow> string \<Rightarrow> bool" where
  "test_ignore_case p [] = matches_here p []"
| "test_ignore_case p (c # cs) = (matches_here p (c # cs) \<or> test_ignore_case p cs)"

definition looksLikeGuardrailNotice :: "ChatMessage \<Rightarrow> bool" where
  "looksLikeGuardrailNotice m =
     (role m = ''assistant'' \<and> test_ignore_case ''blocked by guardrails'' (content m))"

text \<open>One iteration of the \<open>for\<close> loop over \<open>raw\<close>; \<open>cleaned\<close> is the accumulator.\<close>

definition sanitize_step :: "string set \<Rightarrow> ChatMessage list \<Rightarrow> ChatMessage \<Rightarrow> ChatMessage list" where
  "sanitize_step blockedUserContents cleaned m =
     (if role m = ''system'' then cleaned
      else if role m = ''user'' \<and> content m \<in> blockedUserContents then cleaned
      else if looksLikeGuardrailNotice m then
        (if cleaned \<noteq> [] \<and> role (last cleaned) = ''user'' then butlast cleaned else cleaned)
      else cleaned @ [m])"

fun sanitize_loop :: "string set \<Rightarrow> ChatMessage list \<Rightarrow> ChatMessage list \<Rightarrow> ChatMessage list" where
  "sanitize_loop blockedUserContents cleaned [] = cleaned"
| "sanitize_loop blockedUserContents cleaned (m # raw) =
     sanitize_loop blockedUserContents (sanitize_step blockedUserContents cleaned m) raw"

text \<open>The value of \<open>cleaned\<close> after the loop: the sanitized history.\<close>

definition cleaned_of :: "ChatMessage list \<Rightarrow> string set \<Rightarrow> ChatMessage list" where
  "cleaned_of raw blockedUserContents = sanitize_loop blockedUserContents [] raw"

text \<open>The context window: \<open>cleaned.slice(cleaned.length - 16)\<close> when there are more than 16.\<close>

definition windowed_of :: "ChatMessage list \<Rightarrow> ChatMessage list" where
  "windowed_of cleaned =
     (if length cleaned > 16 then drop (length cleaned - 16) cleaned else cleaned)"

definition render :: "ChatMessage \<Rightarrow> string" where
  "render m =
     (if role m = ''user'' then ''User: '' @ content m
      else if role m = ''assistant'' then ''Assistant: '' @ content m
      else [])"

fun join :: "string \<Rightarrow> string list \<Rightarrow> string" where
  "join sep [] = []"
| "join sep [x] = x"
| "join sep (x # y # ys) = x @ sep @ join sep (y # ys)"

definition conversationText :: "ChatMessage list \<Rightarrow> string" where
  "conversationText windowed =
     join [newline, newline] (filter (\<lambda>s. s \<noteq> []) (map render windowed))"

definition format_input :: "ChatMessage list \<Rightarrow> string" where
  "format_input windowed =
     (if length windowed = 1 \<and> role (windowed ! 0) = ''user'' then content (windowed ! 0)
      else conversationText windowed)"

record ModelRequest =
  instructions :: string
  input :: string

definition buildModelInput :: "ChatMessage list \<Rightarrow> string set \<Rightarrow> ModelRequest" where
  "buildModelInput raw blockedUserContents =
     \<lparr> instructions = SYSTEM_PROMPT @ [newline, newline] @ ''Safety: '' @ SAFETY_SHIM,
       input = format_input (windowed_of (cleaned_of raw blockedUserContents)) \<rparr>"

section \<open>JavaScript values\<close>

text \<open>
  The remote reply, a thrown value and the result of \<open>JSON.parse\<close> are untyped. They are
  values of JSON extended with \<open>undefined\<close> and the non-finite numbers. A finite number is
  given by its exact value (both zeros are \<open>Finite 0\<close>: the handler cannot tell them
  apart). An object is the list of its own enumerable properties, with distinct keys.
\<close>

datatype jsnum = Finite rat | NaN | PosInfinity | NegInfinity

datatype jsval =
    Undefined
  | Null
  | Bool bool
  | Num jsnum
  | Str string
  | Arr "jsval list"
  | Obj "(string \<times> jsval) list"

text \<open>What evaluating an expression of the \<open>try\<close> block does: it returns or it throws.\<close>

datatype 'a completion = Normal 'a | Throw jsval

fun truthy :: "jsval \<Rightarrow> bool" where
  "truthy Undefined = False"
| "truthy Null = False"
| "truthy (Bool b) = b"
| "truthy (Num n) = (n \<noteq> NaN \<and> n \<noteq> Finite 0)"
| "truthy (Str s) = (s \<noteq> [])"
| "truthy (Arr xs) = True"
| "truthy (Obj ps) = True"

fun js_typeof :: "jsval \<Rightarrow> string" where
  "js_typeof Undefined = ''undefined''"
| "js_typeof Null = ''object''"
| "js_typeof (Bool b) = ''boolean''"
| "js_typeof (Num n) = ''number''"
| "js_typeof (Str s) = ''string''"
| "js_typeof (Arr xs) = ''object''"
| "js_typeof (Obj ps) = ''object''"

fun isArray :: "jsval \<Rightarrow> bool" where
  "isArray (Arr xs) = True"
| "isArray v = False"

fun elements :: "jsval \<Rightarrow> jsval list" where
  "elements (Arr xs) = xs"
| "elements v = []"

definition nullish :: "jsval \<Rightarrow> bool" where
  "nullish v = (v = Null \<or> v = Undefined)"

text \<open>
  \<open>v.k\<close> for the property names the handler reads (\<open>output\<close>, \<open>type\<close>, \<open>content\<close>,
  \<open>text\<close>, \<open>response\<close>, \<open>choices\<close>, \<open>message\<close>, \<open>result\<close>, \<open>error\<close>, \<open>code\<close>): none of
  them is defined on the prototype of an object, an array, a string, a number or a
  boolean, so the read gives the own property or \<open>undefined\<close>. On \<open>null\<close> and \<open>undefined\<close>
  the read throws; every caller below either guards it or raises the \<open>TypeError\<close> itself.
\<close>

fun get_prop :: "jsval \<Rightarrow> string \<Rightarrow> jsval" where
  "get_prop (Obj ps) k = (case map_of ps k of Some v \<Rightarrow> v | None \<Rightarrow> Undefined)"
| "get_prop v k = Undefined"

text \<open>\<open>v?.k\<close>.\<close>

definition get_opt :: "jsval \<Rightarrow> string \<Rightarrow> jsval" where
  "get_opt v k = (if nullish v then Undefined else get_prop v k)"

text \<open>
  \<open>v[0]\<close> on a value that is not \<open>null\<close> or \<open>undefined\<close>. On a string it is the string of
  the first code unit: its first \<^typ>\<open>char\<close> and the continuation \<^typ>\<open>char\<close>s (from 128
  to 191) that follow it.
\<close>

definition continuation :: "char \<Rightarrow> bool" where
  "continuation c = (128 \<le> (of_char c :: nat) \<and> (of_char c :: nat) \<le> 191)"

fun index0 :: "jsval \<Rightarrow> jsval" where
  "index0 (Arr []) = Undefined"
| "index0 (Arr (x # xs)) = x"
| "index0 (Obj ps) = get_prop (Obj ps) ''0''"
| "index0 (Str []) = Undefined"
| "index0 (Str (c # cs)) = Str (c # takeWhile continuation cs)"
| "index0 v = Undefined"

text \<open>
  The error V8 throws when the property \<open>type\<close> is read from \<open>null\<close> or \<open>undefined\<close>; the
  handler reads only its \<open>message\<close>.
\<close>

definition TypeError_reading_type :: "jsval \<Rightarrow> jsval" where
  "TypeError_reading_type v =
     Obj [(''message'',
       Str (''Cannot read properties of ''
            @ (if v = Null then ''null'' else ''undefined'')
            @ '' (reading 'type')''))]"

text \<open>\<open>items.find((item) => item.type === t)\<close>.\<close>

fun find_type :: "string \<Rightarrow> jsval list \<Rightarrow> jsval completion" where
  "find_type t [] = Normal Undefined"
| "find_type t (item # items) =
     (if nullish item then Throw (TypeError_reading_type item)
      else if get_prop item ''type'' = Str t then Normal item
      else find_type t items)"

section \<open>handleChatRequest (src/index.ts): the response text\<close>

text \<open>
  The block under \<open>Parse GPT-OSS-120b response format\<close>: the new value of \<open>responseText\<close>,
  which stays \<open>""\<close> when the block assigns nothing.
\<close>

definition gpt_oss_text :: "jsval \<Rightarrow> jsval completion" where
  "gpt_oss_text resp =
     (if truthy (get_prop resp ''output'') \<and> isArray (get_prop resp ''output'') then
        (case find_type ''message'' (elements (get_prop resp ''output'')) of
           Throw e \<Rightarrow> Throw e
         | Normal messageOutput \<Rightarrow>
             if truthy messageOutput \<and> truthy (get_prop messageOutput ''content'')
                \<and> isArray (get_prop messageOutput ''content'') then
               (case find_type ''output_text'' (elements (get_prop messageOutput ''content'')) of
                  Throw e \<Rightarrow> Throw e
                | Normal textContent \<Rightarrow>
                    if truthy textContent \<and> truthy (get_prop textContent ''text'')
                    then Normal (get_prop textContent ''text'')
                    else Normal (Str []))
             else Normal (Str []))
      else Normal (Str []))"

text \<open>The chain under \<open>Fallback formats\<close>.\<close>

definition fallback_text :: "jsval \<Rightarrow> jsval" where
  "fallback_text resp =
     (if truthy (get_prop resp ''response'') then get_prop resp ''response''
      else if truthy (get_prop resp ''content'') then get_prop resp ''content''
      else if truthy (get_prop resp ''choices'')
              \<and> truthy (get_opt (get_opt (index0 (get_prop resp ''choices'')) ''message'') ''content'')
        then get_opt (get_opt (index0 (get_prop resp ''choices'')) ''message'') ''content''
      else if truthy (get_prop resp ''result'')
              \<and> truthy (get_prop (get_prop resp ''result'') ''response'')
        then get_prop (get_prop resp ''result'') ''response''
      else Str ''Error: Could not parse AI response'')"

text \<open>The value of \<open>responseText\<close> after \<open>Extract response text\<close>.\<close>

definition extract_text :: "jsval \<Rightarrow> jsval completion" where
  "extract_text aiResponse =
     (if js_typeof aiResponse = ''string'' then Normal aiResponse
      else if truthy aiResponse \<and> js_typeof aiResponse = ''object'' then
        (case gpt_oss_text aiResponse of
           Throw e \<Rightarrow> Throw e
         | Normal responseText \<Rightarrow>
             if \<not> truthy responseText then Normal (fallback_text aiResponse)
             else Normal responseText)
      else Normal (Str []))"

section \<open>handleChatRequest (src/index.ts): the \<open>catch\<close> block\<close>

text \<open>
  \<open>message.match(/\{.*\}/)\<close>. The dot matches every code unit but the line terminators
  (line feed, carriage return, U+2028 and U+2029; the last two are the \<^typ>\<open>char\<close>s
  \<open>E2 80 A8\<close> and \<open>E2 80 A9\<close>). \<open>dot_run s\<close> is all that \<open>.*\<close> can consume at the start of
  \<open>s\<close>. The match starts at the first \<open>{\<close> that has a \<open>}\<close> within the run after it, and,
  \<open>.*\<close> being greedy, ends at the last \<open>}\<close> of that run.
\<close>

definition line_terminator_at :: "string \<Rightarrow> bool" where
  "line_terminator_at s =
     (take 1 s = [CHR 0x0A] \<or> take 1 s = [CHR 0x0D]
      \<or> take 3 s = [CHR 0xE2, CHR 0x80, CHR 0xA8] \<or> take 3 s = [CHR 0xE2, CHR 0x80, CHR 0xA9])"

fun dot_run :: "string \<Rightarrow> string" where
  "dot_run [] = []"
| "dot_run (c # cs) = (if line_terminator_at (c # cs) then [] else c # dot_run cs)"

definition upto_last_brace :: "string \<Rightarrow> string" where
  "upto_last_brace run = rev (dropWhile (\<lambda>c. c \<noteq> CHR ''}'') (rev run))"

fun regex_match :: "string \<Rightarrow> string option" where
  "regex_match [] = None"
| "regex_match (c # cs) =
     (if c = CHR ''{'' \<and> CHR ''}'' \<in> set (dot_run cs)
      then Some (c # upto_last_brace (dot_run cs))
      else regex_match cs)"

text \<open>
  The value of \<open>gatewayError\<close> after the inner \<open>try\<close>. \<open>JSON.parse\<close> is the built-in of
  the platform, taken as the parameter \<open>JSON_parse\<close>: \<open>None\<close> when it throws, which the
  inner \<open>catch\<close> swallows, as it does the \<open>TypeError\<close> of reading \<open>error\<close> from a \<open>null\<close>
  result.
\<close>

definition gateway_error_of :: "(string \<Rightarrow> jsval option) \<Rightarrow> jsval \<Rightarrow> jsval" where
  "gateway_error_of JSON_parse errorObj =
     (if truthy (get_prop errorObj ''message'') \<and> js_typeof (get_prop errorObj ''message'') = ''string''
      then
        (case get_prop errorObj ''message'' of
           Str message \<Rightarrow>
             (case regex_match message of
                None \<Rightarrow> Null
              | Some jsonMatch \<Rightarrow>
                  (case JSON_parse jsonMatch of
                     None \<Rightarrow> Null
                   | Some parsed \<Rightarrow>
                       if nullish parsed then Null
                       else if truthy (get_prop parsed ''error'') \<and> isArray (get_prop parsed ''error'')
                       then index0 (get_prop parsed ''error'')
                       else Null))
         | _ \<Rightarrow> Null)
      else Null)"

definition AI_GATEWAY_ID :: string where
  "AI_GATEWAY_ID = ''gpt-oss-gateway''"

record Response =
  status :: nat
  headers :: "(string \<times> string) list"
  body :: jsval

text \<open>The three responses of the \<open>catch\<close> block; \<open>body\<close> is the argument of \<open>JSON.stringify\<close>.\<close>

definition prompt_blocked_response :: Response where
  "prompt_blocked_response =
     \<lparr> status = 400,
       headers = [(''Content-Type'', ''application/json'')],
       body = Obj
         [(''error'', Str ''Prompt Blocked by Security Policy''),
          (''errorType'', Str ''prompt_blocked''),
          (''details'', Str
             (if AI_GATEWAY_ID \<noteq> []
              then ''Your message was blocked by your organization's AI Gateway security policy. This may be due to content that violates safety guidelines including: hate speech, violence, self-harm, explicit content, or other harmful material.''
              else ''Your message was blocked due to security policy.'')),
          (''usingGateway'', Bool (AI_GATEWAY_ID \<noteq> []))] \<rparr>"

definition response_blocked_response :: Response where
  "response_blocked_response =
     \<lparr> status = 400,
       headers = [(''Content-Type'', ''application/json'')],
       body = Obj
         [(''error'', Str ''Response Blocked by Security Policy''),
          (''errorType'', Str ''response_blocked''),
          (''details'', Str
             (if AI_GATEWAY_ID \<noteq> []
              then ''The AI's response was blocked by your organization's AI Gateway security policy. The model attempted to generate content that violates safety guidelines. Please rephrase your question or try a different topic.''
              else ''The AI's response was blocked due to security policy.'')),
          (''usingGateway'', Bool (AI_GATEWAY_ID \<noteq> []))] \<rparr>"

definition generic_failure_response :: Response where
  "generic_failure_response =
     \<lparr> status = 500,
       headers = [(''content-type'', ''application/json'')],
       body = Obj [(''error'', Str ''Failed to process request'')] \<rparr>"

definition catch_block :: "(string \<Rightarrow> jsval option) \<Rightarrow> jsval \<Rightarrow> Response" where
  "catch_block JSON_parse error =
     (if truthy error \<and> js_typeof error = ''object'' then
        (let gatewayError = gateway_error_of JSON_parse error in
         if truthy gatewayError \<and> get_prop gatewayError ''code'' = Num (Finite 2016)
           then prompt_blocked_response
         else if truthy gatewayError \<and> get_prop gatewayError ''code'' = Num (Finite 2017)
           then response_blocked_response
         else generic_failure_response)
      else generic_failure_response)"

section \<open>handleChatRequest (src/index.ts)\<close>

text \<open>
  The request body after \<open>request.json()\<close>, at its declared type \<open>IncomingBody\<close>: each field
  is \<open>None\<close> when it is missing or not an array.
\<close>

record IncomingBody =
  messages :: "ChatMessage list option"
  blockedUserContents :: "string list option"

definition success_response :: "jsval \<Rightarrow> Response" where
  "success_response responseText =
     \<lparr> status = 200,
       headers = [(''Content-Type'', ''application/json'')],
       body = Obj [(''response'', responseText), (''success'', Bool True)] \<rparr>"

text \<open>
  The \<open>try\<close> block. \<open>request_json\<close> is what \<open>await request.json()\<close> does, and \<open>AI_run\<close>
  what \<open>await env.AI.run(MODEL_ID, {input}, runOptions)\<close> does for a given \<open>input\<close>.
\<close>

definition try_block :: "IncomingBody completion \<Rightarrow> (string \<Rightarrow> jsval completion) \<Rightarrow> Response completion" where
  "try_block request_json AI_run =
     (case request_json of
        Throw e \<Rightarrow> Throw e
      | Normal raw \<Rightarrow>
          (let msgs = (case messages raw of Some ms \<Rightarrow> ms | None \<Rightarrow> []);
               blocked = set (case blockedUserContents raw of Some bs \<Rightarrow> bs | None \<Rightarrow> [])
           in case AI_run (input (buildModelInput msgs blocked)) of
                Throw e \<Rightarrow> Throw e
              | Normal aiResponse \<Rightarrow>
                  (case extract_text aiResponse of
                     Throw e \<Rightarrow> Throw e
                   | Normal responseText \<Rightarrow> Normal (success_response responseText))))"

definition handleChatRequest ::
  "(string \<Rightarrow> jsval option) \<Rightarrow> IncomingBody completion \<Rightarrow> (string \<Rightarrow> jsval completion) \<Rightarrow> Response" where
  "handleChatRequest JSON_parse request_json AI_run =
     (case try_block request_json AI_run of
        Normal response \<Rightarrow> response
      | Throw error \<Rightarrow> catch_block JSON_parse error)"

section \<open>A model of \<open>JSON.parse\<close>\<close>

text \<open>
  \<open>JSON.parse\<close> is not code of the repository, and the handler above takes it as a
  parameter. \<open>JSON_parse_model\<close> is an executable reading of the JSON grammar that the
  built-in accepts, to run the handler on concrete messages: a tokenizer, and a parser
  with an explicit stack of the arrays and objects under construction. It gives \<open>None\<close>
  where the built-in throws a \<open>SyntaxError\<close>. A number is the double nearest to the value
  of its literal; an escape \<open>\uXXXX\<close> gives the \<^typ>\<open>char\<close>s of that code unit; of two
  members with the same key the later one wins.
\<close>

definition json_ws :: "char \<Rightarrow> bool" where
  "json_ws c = (c = CHR '' '' \<or> c = CHR 0x09 \<or> c = CHR 0x0A \<or> c = CHR 0x0D)"

definition is_digit :: "char \<Rightarrow> bool" where
  "is_digit c = (c \<in> set ''0123456789'')"

definition digits_value :: "string \<Rightarrow> nat" where
  "digits_value ds = foldl (\<lambda>n c. 10 * n + ((of_char c :: nat) - 48)) 0 ds"

definition digits :: "string \<Rightarrow> string \<times> string" where
  "digits s = (takeWhile is_digit s, dropWhile is_digit s)"

definition hex_value :: "char \<Rightarrow> nat option" where
  "hex_value c =
     (let n = (of_char c :: nat)
      in if 48 \<le> n \<and> n \<le> 57 then Some (n - 48)
         else if 65 \<le> n \<and> n \<le> 70 then Some (n - 55)
         else if 97 \<le> n \<and> n \<le> 102 then Some (n - 87)
         else None)"

definition encode_unit :: "nat \<Rightarrow> string" where
  "encode_unit n =
     (if n < 128 then [char_of n]
      else if n < 2048 then [char_of (192 + n div 64), char_of (128 + n mod 64)]
      else [char_of (224 + n div 4096), char_of (128 + (n div 64) mod 64), char_of (128 + n mod 64)])"

definition simple_escape :: "char \<Rightarrow> char option" where
  "simple_escape e =
     (if e = CHR 0x22 then Some (CHR 0x22)
      else if e = CHR 0x5C then Some (CHR 0x5C)
      else if e = CHR ''/'' then Some (CHR ''/'')
      else if e = CHR ''b'' then Some (CHR 0x08)
      else if e = CHR ''f'' then Some (CHR 0x0C)
      else if e = CHR ''n'' then Some (CHR 0x0A)
      else if e = CHR ''r'' then Some (CHR 0x0D)
      else if e = CHR ''t'' then Some (CHR 0x09)
      else None)"

definition unicode_escape :: "string \<Rightarrow> string option" where
  "unicode_escape hs =
     (case map hex_value hs of
        [Some a, Some b, Some c, Some d] \<Rightarrow> Some (encode_unit (((a * 16 + b) * 16 + c) * 16 + d))
      | _ \<Rightarrow> None)"

fun parse_string :: "string \<Rightarrow> (string \<times> string) option" where
  "parse_string [] = None"
| "parse_string (c # cs) =
     (if c = CHR 0x22 then Some ([], cs)
      else if c = CHR 0x5C then
        (case cs of
           [] \<Rightarrow> None
         | e # es \<Rightarrow>
             if e = CHR ''u'' then
               (case es of
                  h1 # h2 # h3 # h4 # rest \<Rightarrow>
                    (case unicode_escape [h1, h2, h3, h4] of
                       None \<Rightarrow> None
                     | Some u \<Rightarrow> map_option (\<lambda>(s, r). (u @ s, r)) (parse_string rest))
                | _ \<Rightarrow> None)
             else
               (case simple_escape e of
                  None \<Rightarrow> None
                | Some x \<Rightarrow> map_option (\<lambda>(s, r). (x # s, r)) (parse_string es)))
      else if (of_char c :: nat) < 32 then None
      else map_option (\<lambda>(s, r). (c # s, r)) (parse_string cs))"

text \<open>
  The double nearest to the quotient \<open>a / b\<close> of two natural numbers, \<open>b\<close> not zero, as
  \<open>JSON.parse\<close> rounds the value of a number literal: to the nearest multiple of
  \<open>2 ^ (e - 52)\<close>, where \<open>2 ^ e\<close> is the largest power of two that is at most the quotient and
  \<open>e\<close> is taken to be at least \<open>-1022\<close> (below that the doubles are subnormal), a tie going
  to the even multiple; a result of \<open>2 ^ 1024\<close> or more is \<open>Infinity\<close>.
\<close>

fun bit_length :: "nat \<Rightarrow> nat" where
  "bit_length n = (if n = 0 then 0 else Suc (bit_length (n div 2)))"

declare bit_length.simps [simp del]

definition pow2 :: "int \<Rightarrow> rat" where
  "pow2 e = (if 0 \<le> e then 2 ^ nat e else 1 / 2 ^ nat (- e))"

definition binary_exponent :: "nat \<Rightarrow> nat \<Rightarrow> int" where
  "binary_exponent a b =
     (if pow2 (int (bit_length a) - int (bit_length b)) * of_nat b \<le> of_nat a
      then int (bit_length a) - int (bit_length b)
      else int (bit_length a) - int (bit_length b) - 1)"

definition round_half_even :: "nat \<Rightarrow> nat \<Rightarrow> nat" where
  "round_half_even n d =
     (if 2 * (n mod d) < d then n div d
      else if d < 2 * (n mod d) then n div d + 1
      else if even (n div d) then n div d
      else n div d + 1)"

definition scaled_double :: "nat \<Rightarrow> int \<Rightarrow> jsnum" where
  "scaled_double n sh =
     (if pow2 1024 \<le> of_nat n * pow2 sh then PosInfinity else Finite (of_nat n * pow2 sh))"

definition round_at :: "nat \<Rightarrow> nat \<Rightarrow> int \<Rightarrow> jsnum" where
  "round_at a b sh =
     scaled_double
       (if 0 \<le> sh then round_half_even a (b * 2 ^ nat sh)
        else round_half_even (a * 2 ^ nat (- sh)) b)
       sh"

definition nearest_double :: "nat \<Rightarrow> nat \<Rightarrow> jsnum" where
  "nearest_double a b =
     (if a = 0 then Finite 0
      else round_at a b (max (binary_exponent a b) (- 1022) - 52))"

fun negate :: "jsnum \<Rightarrow> jsnum" where
  "negate (Finite q) = Finite (- q)"
| "negate PosInfinity = NegInfinity"
| "negate NegInfinity = PosInfinity"
| "negate NaN = NaN"

text \<open>
  A number: \<open>-? (0 | [1-9][0-9]*) (. [0-9]+)? ([eE] [+-]? [0-9]+)?\<close>. The digits and the
  exponent give the value of the literal as a quotient of two natural numbers, which is
  then rounded to a double.
\<close>

definition scale_exponent :: "bool \<Rightarrow> nat \<times> nat \<Rightarrow> string \<times> string \<Rightarrow> ((nat \<times> nat) \<times> string) option" where
  "scale_exponent neg m p =
     (case p of (ep, rest) \<Rightarrow>
        if ep = [] then None
        else Some (if neg then (fst m, snd m * 10 ^ digits_value ep)
                   else (fst m * 10 ^ digits_value ep, snd m), rest))"

definition exponent_part :: "nat \<times> nat \<Rightarrow> string \<Rightarrow> ((nat \<times> nat) \<times> string) option" where
  "exponent_part m s =
     (case s of
        [] \<Rightarrow> Some (m, [])
      | c # cs \<Rightarrow>
          if c = CHR ''e'' \<or> c = CHR ''E'' then
            (case cs of
               [] \<Rightarrow> None
             | d # ds \<Rightarrow>
                 if d = CHR ''-'' then scale_exponent True m (digits ds)
                 else if d = CHR ''+'' then scale_exponent False m (digits ds)
                 else scale_exponent False m (digits cs))
          else Some (m, s))"

definition fraction_part :: "string \<Rightarrow> string \<Rightarrow> ((nat \<times> nat) \<times> string) option" where
  "fraction_part ip s =
     (case s of
        [] \<Rightarrow> Some ((digits_value ip, 1), [])
      | c # cs \<Rightarrow>
          if c = CHR ''.'' then
            (case digits cs of (fp, rest) \<Rightarrow>
               if fp = [] then None
               else exponent_part (digits_value (ip @ fp), 10 ^ length fp) rest)
          else exponent_part (digits_value ip, 1) s)"

definition unsigned_number :: "string \<Rightarrow> ((nat \<times> nat) \<times> string) option" where
  "unsigned_number s =
     (case digits s of (ip, rest) \<Rightarrow>
        if ip = [] \<or> (length ip > 1 \<and> take 1 ip = ''0'') then None
        else fraction_part ip rest)"

definition parse_number :: "string \<Rightarrow> (jsval \<times> string) option" where
  "parse_number s =
     (case s of
        [] \<Rightarrow> None
      | c # cs \<Rightarrow>
          if c = CHR ''-''
          then map_option (\<lambda>(m, r). (Num (negate (nearest_double (fst m) (snd m))), r))
                 (unsigned_number cs)
          else map_option (\<lambda>(m, r). (Num (nearest_double (fst m) (snd m)), r))
                 (unsigned_number s))"

fun put_prop :: "string \<Rightarrow> jsval \<Rightarrow> (string \<times> jsval) list \<Rightarrow> (string \<times> jsval) list" where
  "put_prop k v [] = [(k, v)]"
| "put_prop k v ((k', v') # ps) = (if k = k' then (k, v) # ps else (k', v') # put_prop k v ps)"

datatype token =
    LBrace | RBrace | LBracket | RBracket | Colon | Comma | TString string | TValue jsval

fun tokenize :: "nat \<Rightarrow> string \<Rightarrow> token list option" where
  "tokenize k [] = Some []"
| "tokenize 0 (c # cs) = None"
| "tokenize (Suc k) (c # cs) =
     (if json_ws c then tokenize k cs
      else if c = CHR ''{'' then map_option (Cons LBrace) (tokenize k cs)
      else if c = CHR ''}'' then map_option (Cons RBrace) (tokenize k cs)
      else if c = CHR ''['' then map_option (Cons LBracket) (tokenize k cs)
      else if c = CHR '']'' then map_option (Cons RBracket) (tokenize k cs)
      else if c = CHR '':'' then map_option (Cons Colon) (tokenize k cs)
      else if c = CHR '','' then map_option (Cons Comma) (tokenize k cs)
      else if c = CHR 0x22 then
        (case parse_string cs of
           None \<Rightarrow> None
         | Some (x, r) \<Rightarrow> map_option (Cons (TString x)) (tokenize k r))
      else if take 4 (c # cs) = ''true'' then
        map_option (Cons (TValue (Bool True))) (tokenize k (drop 3 cs))
      else if take 5 (c # cs) = ''false'' then
        map_option (Cons (TValue (Bool False))) (tokenize k (drop 4 cs))
      else if take 4 (c # cs) = ''null'' then
        map_option (Cons (TValue Null)) (tokenize k (drop 3 cs))
      else
        (case parse_number (c # cs) of
           None \<Rightarrow> None
         | Some (v, r) \<Rightarrow> map_option (Cons (TValue v)) (tokenize k r)))"

datatype frame = InArr "jsval list" | InObj "(string \<times> jsval) list" string

fun parse_tokens :: "frame list \<Rightarrow> token list \<Rightarrow> jsval option"
  and after_value :: "jsval \<Rightarrow> frame list \<Rightarrow> token list \<Rightarrow> jsval option"
where
  "parse_tokens st (TValue v # ts) = after_value v st ts"
| "parse_tokens st (TString x # ts) = after_value (Str x) st ts"
| "parse_tokens st (LBracket # ts) =
     (case ts of
        RBracket # ts' \<Rightarrow> after_value (Arr []) st ts'
      | _ \<Rightarrow> parse_tokens (InArr [] # st) ts)"
| "parse_tokens st (LBrace # ts) =
     (case ts of
        RBrace # ts' \<Rightarrow> after_value (Obj []) st ts'
      | TString key # Colon # ts' \<Rightarrow> parse_tokens (InObj [] key # st) ts'
      | _ \<Rightarrow> None)"
| "parse_tokens st ts = None"
| "after_value v [] ts = (if ts = [] then Some v else None)"
| "after_value v (InArr acc # st) (Comma # ts) = parse_tokens (InArr (acc @ [v]) # st) ts"
| "after_value v (InArr acc # st) (RBracket # ts) = after_value (Arr (acc @ [v])) st ts"
| "after_value v (InObj ps key # st) (Comma # ts) =
     (case ts of
        TString key' # Colon # ts' \<Rightarrow> parse_tokens (InObj (put_prop key v ps) key' # st) ts'
      | _ \<Rightarrow> None)"
| "after_value v (InObj ps key # st) (RBrace # ts) = after_value (Obj (put_prop key v ps)) st ts"
| "after_value v st ts = None"

definition JSON_parse_model :: "string \<Rightarrow> jsval option" where
  "JSON_parse_model text =
     (case tokenize (length text) text of
        None \<Rightarrow> None
      | Some ts \<Rightarrow> parse_tokens [] ts)"

section \<open>Definitions that follow the specification\<close>

text \<open>
  The entries the sanitizer appends: the classifier's label \<open>keep\<close>, apart from the block
  set.
\<close>

definition retained :: "ChatMessage \<Rightarrow> bool" where
  "retained m = (role m \<noteq> ''system'' \<and> \<not> looksLikeGuardrailNotice m)"

text \<open>
  The Prompt Formatter in the specification's words: a lone user entry is passed on as it
  is; otherwise the entries of any other role are dropped, each remaining entry is
  rendered with its prefix, and the renderings are joined by two line feeds, in their
  order. The joining is written with the list functions of the library, not with the \<open>join\<close>
  of the code: the transcript is the first rendering, followed by every later rendering
  with the two line feeds in front of it.
\<close>

definition spec_render :: "ChatMessage \<Rightarrow> string" where
  "spec_render m = (if role m = ''user'' then ''User: '' else ''Assistant: '') @ content m"

definition spec_transcript :: "ChatMessage list \<Rightarrow> string" where
  "spec_transcript w =
     (case map spec_render (filter (\<lambda>m. role m = ''user'' \<or> role m = ''assistant'') w) of
        [] \<Rightarrow> []
      | r # rs \<Rightarrow> r @ concat (map (\<lambda>s. [newline, newline] @ s) rs))"

fun spec_input :: "ChatMessage list \<Rightarrow> string" where
  "spec_input [m] = (if role m = ''user'' then content m else spec_transcript [m])"
| "spec_input w = spec_transcript w"

text \<open>
  The shapes (2) to (6) of the Response Extractor in the specification's words: what each
  finds in a reply, \<open>Undefined\<close> when the reply has no such field. Shape (2) is the \<open>text\<close>
  of the first \<open>output_text\<close> entry in the \<open>content\<close> list of the first \<open>message\<close> entry of
  the \<open>output\<close> list. A shape yields nothing when what it finds is not truthy.
\<close>

definition shape2 :: "jsval \<Rightarrow> jsval" where
  "shape2 reply =
     (case List.find (\<lambda>item. get_prop item ''type'' = Str ''message'')
             (elements (get_prop reply ''output'')) of
        None \<Rightarrow> Undefined
      | Some msg \<Rightarrow>
          (case List.find (\<lambda>item. get_prop item ''type'' = Str ''output_text'')
                  (elements (get_prop msg ''content'')) of
             None \<Rightarrow> Undefined
           | Some entry \<Rightarrow> get_prop entry ''text''))"

definition shape3 :: "jsval \<Rightarrow> jsval" where
  "shape3 reply = get_prop reply ''response''"

definition shape4 :: "jsval \<Rightarrow> jsval" where
  "shape4 reply = get_prop reply ''content''"

definition shape5 :: "jsval \<Rightarrow> jsval" where
  "shape5 reply = get_prop (get_prop (index0 (get_prop reply ''choices'')) ''message'') ''content''"

definition shape6 :: "jsval \<Rightarrow> jsval" where
  "shape6 reply = get_prop (get_prop reply ''result'') ''response''"

text \<open>The \<open>input\<close> that the handler passes to \<open>env.AI.run\<close> for a request body.\<close>

definition ai_input :: "IncomingBody \<Rightarrow> string" where
  "ai_input raw =
     input (buildModelInput (case messages raw of Some ms \<Rightarrow> ms | None \<Rightarrow> [])
              (set (case blockedUserContents raw of Some bs \<Rightarrow> bs | None \<Rightarrow> [])))"

definition fallback_message :: string where
  "fallback_message = ''Error: Could not parse AI response''"

text \<open>
  The precedence of the shapes: what the first shape in the order (2), (3), (4), (5), (6)
  that yields something finds, and the fixed fallback text when none yields anything.
\<close>

definition first_yield :: "jsval \<Rightarrow> jsval" where
  "first_yield reply =
     (case List.find truthy
             [shape2 reply, shape3 reply, shape4 reply, shape5 reply, shape6 reply] of
        None \<Rightarrow> Str fallback_message
      | Some found \<Rightarrow> found)"

text \<open>
  The scans of the handler meet no \<open>null\<close> or \<open>undefined\<close>: in the \<open>output\<close> list no entry
  before the first \<open>message\<close> entry is one, and in the \<open>content\<close> list of that \<open>message\<close>
  entry no entry before the first \<open>output_text\<close> entry is one. Entries after the one a scan
  finds, and the \<open>content\<close> lists of other entries, are not looked at.
\<close>

definition first_of_type :: "string \<Rightarrow> jsval list \<Rightarrow> jsval" where
  "first_of_type t items =
     (case List.find (\<lambda>item. get_prop item ''type'' = Str t) items of
        None \<Rightarrow> Undefined
      | Some item \<Rightarrow> item)"

definition scan_is_clean :: "string \<Rightarrow> jsval list \<Rightarrow> bool" where
  "scan_is_clean t items =
     list_all (\<lambda>item. \<not> nullish item)
       (takeWhile (\<lambda>item. get_prop item ''type'' \<noteq> Str t) items)"

definition scans_cleanly :: "jsval \<Rightarrow> bool" where
  "scans_cleanly reply =
     (scan_is_clean ''message'' (elements (get_prop reply ''output''))
      \<and> scan_is_clean ''output_text''
          (elements (get_prop (first_of_type ''message'' (elements (get_prop reply ''output'')))
             ''content'')))"

text \<open>Replies and a request body for the concrete runs below.\<close>

definition reply_both :: jsval where
  "reply_both =
     Obj [(''output'',
             Arr [Obj [(''type'', Str ''reasoning''), (''content'', Arr [Null])],
                  Obj [(''type'', Str ''message''),
                       (''content'', Arr [Obj [(''type'', Str ''output_text''), (''text'', Str ''from output'')],
                                          Undefined])],
                  Null]),
          (''response'', Str ''from response'')]"

definition reply_unmatched :: jsval where
  "reply_unmatched =
     Obj [(''output'', Arr [Obj [(''type'', Str ''reasoning''), (''content'', Arr [Null])]]),
          (''status'', Str ''done'')]"

definition reply_empty_text :: jsval where
  "reply_empty_text =
     Obj [(''output'',
             Arr [Obj [(''type'', Str ''message''),
                       (''content'', Arr [Obj [(''type'', Str ''output_text''), (''text'', Str [])]])]]),
          (''response'', Str ''from response'')]"

definition empty_body :: IncomingBody where
  "empty_body = \<lparr> messages = None, blockedUserContents = None \<rparr>"

text \<open>
  The gateway error of the specification, \<open>{"error":[{"code":<code>,"message":"x"}]}\<close>, as
  text and as the value \<open>JSON.parse\<close> reads from it, and an error object with a name and a
  given message.
\<close>

definition fragment_body :: "string \<Rightarrow> string" where
  \<open>fragment_body code = ''"error":[{"code":'' @ code @ '',"message":"x"}]''\<close>

definition gateway_fragment :: "string \<Rightarrow> string" where
  "gateway_fragment code = CHR ''{'' # fragment_body code @ [CHR ''}'']"

definition gateway_value :: "rat \<Rightarrow> jsval" where
  "gateway_value code =
     Obj [(''error'', Arr [Obj [(''code'', Num (Finite code)), (''message'', Str ''x'')]])]"

definition ai_error :: "string \<Rightarrow> jsval" where
  "ai_error message = Obj [(''name'', Str ''AiError''), (''message'', Str message)]"

text \<open>A \<^typ>\<open>char\<close> that starts no line terminator.\<close>

definition plain :: "char \<Rightarrow> bool" where
  "plain c = (c \<noteq> CHR 0x0A \<and> c \<noteq> CHR 0x0D \<and> c \<noteq> CHR 0xE2)"

text \<open>Messages for the concrete conversations below.\<close>

definition user_msg :: "string \<Rightarrow> ChatMessage" where
  "user_msg c = \<lparr>role = ''user'', content = c\<rparr>"

definition assistant_msg :: "string \<Rightarrow> ChatMessage" where
  "assistant_msg c = \<lparr>role = ''assistant'', content = c\<rparr>"

definition system_msg :: "string \<Rightarrow> ChatMessage" where
  "system_msg c = \<lparr>role = ''system'', content = c\<rparr>"

section \<open>The sanitizer\<close>

lemma sanitize_loop_append:
  "sanitize_loop B acc (xs @ ys) = sanitize_loop B (sanitize_loop B acc xs) ys"
  by (induction xs arbitrary: acc) simp_all

lemma set_butlast_subset: "set (butlast xs) \<subseteq> set xs"
  by (induction xs) auto

lemma sanitize_step_retained:
  "filter (\<lambda>m. \<not> retained m) cleaned = [] \<Longrightarrow>
   filter (\<lambda>m. \<not> retained m) (sanitize_step B cleaned m) = []"
  using set_butlast_subset [of cleaned]
  by (auto simp: sanitize_step_def retained_def filter_empty_conv)

lemma sanitize_loop_retained:
  "filter (\<lambda>m. \<not> retained m) cleaned = [] \<Longrightarrow>
   filter (\<lambda>m. \<not> retained m) (sanitize_loop B cleaned raw) = []"
  by (induction raw arbitrary: cleaned) (simp_all add: sanitize_step_retained)

lemma cleaned_of_retained: "filter (\<lambda>m. \<not> retained m) (cleaned_of raw B) = []"
  unfolding cleaned_of_def by (rule sanitize_loop_retained) simp

lemma sanitize_loop_keeps_all:
  "filter (\<lambda>m. \<not> retained m) raw = [] \<Longrightarrow> sanitize_loop {} cleaned raw = cleaned @ raw"
proof (induction raw arbitrary: cleaned)
  case Nil
  then show ?case by simp
next
  case (Cons m raw)
  from Cons.prems have m: "retained m" and r: "filter (\<lambda>m. \<not> retained m) raw = []"
    by (auto split: if_splits)
  from m have "sanitize_step {} cleaned m = cleaned @ [m]"
    by (simp add: sanitize_step_def retained_def)
  with Cons.IH [OF r] show ?case by simp
qed

lemma sanitize_step_subseq: "subseq (sanitize_step B cleaned m) (cleaned @ [m])"
proof -
  have "subseq (butlast cleaned) cleaned"
    by (metis prefix_imp_subseq prefixeq_butlast)
  then have "subseq (butlast cleaned) (cleaned @ [m])"
    by (metis subseq_order.order_trans subseq_rev_drop_many subseq_order.order_refl
        append.right_neutral list_emb_append_mono list_emb_Nil)
  then show ?thesis
    by (auto simp: sanitize_step_def)
qed

lemma sanitize_loop_subseq: "subseq (sanitize_loop B cleaned raw) (cleaned @ raw)"
proof (induction raw arbitrary: cleaned)
  case Nil
  then show ?case by simp
next
  case (Cons m raw)
  have "subseq (sanitize_loop B (sanitize_step B cleaned m) raw) (sanitize_step B cleaned m @ raw)"
    by (rule Cons.IH)
  also have "subseq (sanitize_step B cleaned m @ raw) ((cleaned @ [m]) @ raw)"
    by (intro list_emb_append_mono sanitize_step_subseq) simp
  finally show ?case by simp
qed

lemma notice_step:
  "looksLikeGuardrailNotice n \<Longrightarrow>
   sanitize_step B cleaned n =
     (if cleaned \<noteq> [] \<and> role (last cleaned) = ''user'' then butlast cleaned else cleaned)"
  by (auto simp: sanitize_step_def looksLikeGuardrailNotice_def)

lemma user_then_notice:
  assumes "role u = ''user''" and "looksLikeGuardrailNotice n"
  shows "prefix (sanitize_loop B cleaned [u, n]) cleaned"
proof (cases "content u \<in> B")
  case True
  with assms(1) have "sanitize_step B cleaned u = cleaned"
    by (simp add: sanitize_step_def)
  then show ?thesis
    using assms(2) by (simp add: notice_step prefixeq_butlast)
next
  case False
  with assms(1) have "sanitize_step B cleaned u = cleaned @ [u]"
    by (simp add: sanitize_step_def looksLikeGuardrailNotice_def)
  then show ?thesis
    using assms by (simp add: notice_step)
qed

lemma notice_example: "looksLikeGuardrailNotice (assistant_msg ''Request Blocked by Guardrails.'')"
  by code_simp

lemmas msg_defs = user_msg_def assistant_msg_def system_msg_def

lemmas sanitize_eval = cleaned_of_def sanitize_step_def looksLikeGuardrailNotice_def msg_defs

text \<open>
  C5. For every conversation and every block set, the sanitized history holds no message
  whose role is \<open>system\<close>; nor does the windowed history cut from it.
\<close>

theorem sanitized_history_has_no_system_message:
  "''system'' \<notin> set (map role (cleaned_of raw B))
   \<and> ''system'' \<notin> set (map role (windowed_of (cleaned_of raw B)))"
proof -
  have "filter (\<lambda>m. \<not> retained m) (cleaned_of raw B) = []"
    by (rule cleaned_of_retained)
  then have a: "''system'' \<notin> set (map role (cleaned_of raw B))"
    by (auto simp: filter_empty_conv retained_def)
  have "set (windowed_of (cleaned_of raw B)) \<subseteq> set (cleaned_of raw B)"
    by (auto simp: windowed_of_def dest: in_set_dropD)
  with a show ?thesis by auto
qed

text \<open>
  C1, as amended. Let \<open>n\<close> be a guardrail notice. (1) If the entry just before it in the
  conversation is a user entry \<open>u\<close>, neither of the two is in the sanitized history: that
  history is a subsequence of the conversation without them. (2) If the entries retained
  so far end in a user entry, the notice removes that entry and nothing else. (3) If
  nothing is retained so far, or the last retained entry is not a user entry, the
  sanitized history is that of the conversation without the notice: nothing else is
  removed. (4) No notice is in any sanitized history.
\<close>

theorem guardrail_notice_paired_removal:
  assumes "looksLikeGuardrailNotice n"
  shows "(role u = ''user'' \<longrightarrow>
            subseq (cleaned_of (pre @ [u, n] @ post) B) (pre @ post))
       \<and> (cleaned_of pre B \<noteq> [] \<and> role (last (cleaned_of pre B)) = ''user'' \<longrightarrow>
            cleaned_of (pre @ [n] @ post) B = sanitize_loop B (butlast (cleaned_of pre B)) post)
       \<and> (cleaned_of pre B = [] \<or> role (last (cleaned_of pre B)) \<noteq> ''user'' \<longrightarrow>
            cleaned_of (pre @ [n] @ post) B = cleaned_of (pre @ post) B)
       \<and> n \<notin> set (cleaned_of raw B)"
proof (intro conjI impI)
  assume u: "role u = ''user''"
  let ?A = "sanitize_loop B [] pre"
  let ?X = "sanitize_loop B ?A [u, n]"
  have "prefix ?X ?A"
    using u assms by (rule user_then_notice)
  then have "subseq ?X ?A"
    by (rule prefix_imp_subseq)
  moreover have "subseq ?A pre"
    using sanitize_loop_subseq [of B "[]" pre] by simp
  ultimately have "subseq ?X pre"
    by (rule subseq_order.order_trans)
  then have "subseq (?X @ post) (pre @ post)"
    by (intro list_emb_append_mono) simp_all
  moreover have "subseq (sanitize_loop B ?X post) (?X @ post)"
    by (rule sanitize_loop_subseq)
  ultimately have "subseq (sanitize_loop B ?X post) (pre @ post)"
    using subseq_order.order_trans by blast
  then show "subseq (cleaned_of (pre @ [u, n] @ post) B) (pre @ post)"
    by (simp add: cleaned_of_def sanitize_loop_append)
next
  assume "cleaned_of pre B \<noteq> [] \<and> role (last (cleaned_of pre B)) = ''user''"
  then show "cleaned_of (pre @ [n] @ post) B = sanitize_loop B (butlast (cleaned_of pre B)) post"
    using assms by (simp add: cleaned_of_def sanitize_loop_append notice_step)
next
  assume "cleaned_of pre B = [] \<or> role (last (cleaned_of pre B)) \<noteq> ''user''"
  then show "cleaned_of (pre @ [n] @ post) B = cleaned_of (pre @ post) B"
    using assms by (auto simp: cleaned_of_def sanitize_loop_append notice_step)
next
  have "filter (\<lambda>m. \<not> retained m) (cleaned_of raw B) = []"
    by (rule cleaned_of_retained)
  then show "n \<notin> set (cleaned_of raw B)"
    using assms by (auto simp: filter_empty_conv retained_def)
qed

theorem guardrail_notice_paired_removal_witness:
  "subseq
     (cleaned_of ([assistant_msg ''ok''] @ [user_msg ''a'', assistant_msg ''Request Blocked by Guardrails.'']
        @ [user_msg ''q'']) {})
     ([assistant_msg ''ok''] @ [user_msg ''q''])
   \<and> cleaned_of ([user_msg ''a''] @ [assistant_msg ''Request Blocked by Guardrails.''] @ [user_msg ''q'']) {}
       = sanitize_loop {} (butlast (cleaned_of [user_msg ''a''] {})) [user_msg ''q'']
   \<and> cleaned_of ([assistant_msg ''ok''] @ [assistant_msg ''Request Blocked by Guardrails.''] @ [user_msg ''q'']) {}
       = cleaned_of ([assistant_msg ''ok''] @ [user_msg ''q'']) {}
   \<and> assistant_msg ''Request Blocked by Guardrails.'' \<notin> set (cleaned_of [user_msg ''a''] {})"
proof -
  let ?n = "assistant_msg ''Request Blocked by Guardrails.''"
  have u: "role (user_msg ''a'') = ''user''"
    by (simp add: user_msg_def)
  have a: "cleaned_of [user_msg ''a''] {} \<noteq> [] \<and> role (last (cleaned_of [user_msg ''a''] {})) = ''user''"
    by (simp add: sanitize_eval)
  have b: "cleaned_of [assistant_msg ''ok''] {} = []
           \<or> role (last (cleaned_of [assistant_msg ''ok''] {})) \<noteq> ''user''"
    by (simp add: sanitize_eval)
  from guardrail_notice_paired_removal [OF notice_example,
      of "user_msg ''a''" "[assistant_msg ''ok'']" "[user_msg ''q'']" "{}" "[user_msg ''a'']"]
    guardrail_notice_paired_removal [OF notice_example,
      of "user_msg ''a''" "[user_msg ''a'']" "[user_msg ''q'']" "{}" "[user_msg ''a'']"]
    u a b
  show ?thesis by blast
qed

text \<open>
  C1 as stated fails. In the conversation below the notice comes right after a system
  entry, which is not a user entry, so the claim has only the notice removed; but the
  system entry was skipped, the last retained entry is the user entry before it, and the
  notice removes that one too. So does the second of two notices in a row: it comes right
  after an assistant entry and removes the user entry that is then the last one retained.
\<close>

theorem guardrail_notice_counterexample:
  "role (system_msg ''s'') \<noteq> ''user''
   \<and> looksLikeGuardrailNotice (assistant_msg ''Request Blocked by Guardrails.'')
   \<and> cleaned_of [user_msg ''a'', system_msg ''s''] {} = [user_msg ''a'']
   \<and> cleaned_of [user_msg ''a'', system_msg ''s'', assistant_msg ''Request Blocked by Guardrails.''] {} = []
   \<and> role (assistant_msg ''Request Blocked by Guardrails.'') \<noteq> ''user''
   \<and> cleaned_of [user_msg ''a'', user_msg ''b'', assistant_msg ''Request Blocked by Guardrails.''] {}
       = [user_msg ''a'']
   \<and> cleaned_of [user_msg ''a'', user_msg ''b'', assistant_msg ''Request Blocked by Guardrails.'',
         assistant_msg ''Request Blocked by Guardrails.''] {} = []"
proof -
  have "cleaned_of [user_msg ''a'', system_msg ''s''] {} = [user_msg ''a'']"
    by (simp add: sanitize_eval)
  moreover
  have "cleaned_of [user_msg ''a'', system_msg ''s'', assistant_msg ''Request Blocked by Guardrails.''] {} = []"
  proof -
    have s1: "sanitize_step {} [] (user_msg ''a'') = [user_msg ''a'']"
      by (simp add: sanitize_step_def looksLikeGuardrailNotice_def user_msg_def)
    have s2: "sanitize_step {} [user_msg ''a''] (system_msg ''s'') = [user_msg ''a'']"
      by (simp add: sanitize_step_def system_msg_def)
    have s3: "sanitize_step {} [user_msg ''a''] (assistant_msg ''Request Blocked by Guardrails.'') = []"
      using notice_example by (simp add: notice_step) (simp add: user_msg_def)
    show ?thesis
      by (simp add: cleaned_of_def s1 s2 s3)
  qed
  moreover
  have t1: "sanitize_step {} [] (user_msg ''a'') = [user_msg ''a'']"
    by (simp add: sanitize_step_def looksLikeGuardrailNotice_def user_msg_def)
  have t2: "sanitize_step {} [user_msg ''a''] (user_msg ''b'') = [user_msg ''a'', user_msg ''b'']"
    by (simp add: sanitize_step_def looksLikeGuardrailNotice_def user_msg_def)
  have t3: "sanitize_step {} [user_msg ''a'', user_msg ''b''] (assistant_msg ''Request Blocked by Guardrails.'')
      = [user_msg ''a'']"
    using notice_example by (simp add: notice_step) (simp add: user_msg_def)
  have t4: "sanitize_step {} [user_msg ''a''] (assistant_msg ''Request Blocked by Guardrails.'') = []"
    using notice_example by (simp add: notice_step) (simp add: user_msg_def)
  have "cleaned_of [user_msg ''a'', user_msg ''b'', assistant_msg ''Request Blocked by Guardrails.''] {}
      = [user_msg ''a'']"
    by (simp add: cleaned_of_def t1 t2 t3)
  moreover
  have "cleaned_of [user_msg ''a'', user_msg ''b'', assistant_msg ''Request Blocked by Guardrails.'',
         assistant_msg ''Request Blocked by Guardrails.''] {} = []"
    by (simp add: cleaned_of_def t1 t2 t3 t4)
  ultimately show ?thesis
    using notice_example by (simp add: system_msg_def assistant_msg_def)
qed

section \<open>The context window\<close>

lemma windowed_short: "length c \<le> 16 \<Longrightarrow> windowed_of c = c"
  by (simp add: windowed_of_def)

lemma windowed_long:
  "16 < length c \<Longrightarrow> length (windowed_of c) = 16 \<and> suffix (windowed_of c) c"
  by (simp add: windowed_of_def suffix_drop)

lemma windowed_length: "length (windowed_of c) \<le> 16"
  by (simp add: windowed_of_def)

lemma set_windowed_of: "set (windowed_of c) \<subseteq> set c"
  by (auto simp: windowed_of_def dest: in_set_dropD)

text \<open>
  C3. A sanitized history of at most 16 entries is its own window. Of a longer one the
  window is the trailing 16 entries in their order: it has length 16 and is a suffix of
  the history. This holds of every list, and so of every sanitized history.
\<close>

theorem window_is_trailing_16:
  "(length c \<le> 16 \<longrightarrow> windowed_of c = c)
   \<and> (16 < length c \<longrightarrow> length (windowed_of c) = 16 \<and> suffix (windowed_of c) c)"
  using windowed_short [of c] windowed_long [of c] by blast

theorem window_is_trailing_16_witness:
  "windowed_of (cleaned_of [user_msg ''a'', assistant_msg ''b''] {})
     = cleaned_of [user_msg ''a'', assistant_msg ''b''] {}
   \<and> length (windowed_of (cleaned_of (user_msg ''first'' # replicate 16 (assistant_msg ''b'')) {})) = 16
   \<and> suffix (windowed_of (cleaned_of (user_msg ''first'' # replicate 16 (assistant_msg ''b'')) {}))
        (cleaned_of (user_msg ''first'' # replicate 16 (assistant_msg ''b'')) {})"
proof -
  let ?short = "cleaned_of [user_msg ''a'', assistant_msg ''b''] {}"
  let ?long = "cleaned_of (user_msg ''first'' # replicate 16 (assistant_msg ''b'')) {}"
  have keep: "filter (\<lambda>m. \<not> retained m) (user_msg ''first'' # replicate 16 (assistant_msg ''b'')) = []"
    by (simp add: retained_def looksLikeGuardrailNotice_def msg_defs)
  have "?long = user_msg ''first'' # replicate 16 (assistant_msg ''b'')"
    unfolding cleaned_of_def using sanitize_loop_keeps_all [OF keep, of "[]"] by simp
  then have l: "16 < length ?long"
    by simp
  have "?short = [user_msg ''a'', assistant_msg ''b'']"
    by (simp add: sanitize_eval)
  then have s: "length ?short \<le> 16"
    by simp
  from window_is_trailing_16 [of ?short] window_is_trailing_16 [of ?long] s l
  show ?thesis by blast
qed

text \<open>
  C9. Sanitizing and windowing the windowed history again, with the empty block set, gives
  it back unchanged.
\<close>

theorem sanitize_then_window_idempotent:
  "windowed_of (cleaned_of (windowed_of (cleaned_of raw B)) {}) = windowed_of (cleaned_of raw B)"
proof -
  let ?w = "windowed_of (cleaned_of raw B)"
  have "filter (\<lambda>m. \<not> retained m) (cleaned_of raw B) = []"
    by (rule cleaned_of_retained)
  with set_windowed_of [of "cleaned_of raw B"]
  have "filter (\<lambda>m. \<not> retained m) ?w = []"
    by (auto simp: filter_empty_conv)
  then have "cleaned_of ?w {} = ?w"
    by (simp add: cleaned_of_def sanitize_loop_keeps_all)
  then show ?thesis
    by (simp add: windowed_short windowed_length)
qed

section \<open>The prompt formatter\<close>

lemma rendered_entries:
  "filter (\<lambda>s. s \<noteq> []) (map render w) =
   map spec_render (filter (\<lambda>m. role m = ''user'' \<or> role m = ''assistant'') w)"
  by (induction w) (auto simp: render_def spec_render_def)

lemma join_concat:
  "join sep xs = (case xs of [] \<Rightarrow> [] | x # ys \<Rightarrow> x @ concat (map (\<lambda>s. sep @ s) ys))"
  by (induction sep xs rule: join.induct) simp_all

lemma conversationText_spec: "conversationText w = spec_transcript w"
  by (simp add: conversationText_def spec_transcript_def rendered_entries join_concat)

lemma format_input_spec: "format_input w = spec_input w"
proof (cases w)
  case Nil
  then show ?thesis by (simp add: format_input_def conversationText_spec)
next
  case (Cons m ms)
  then show ?thesis
    by (cases ms) (simp_all add: format_input_def conversationText_spec)
qed

lemma join_Nil_iff: "[] \<notin> set xs \<Longrightarrow> (join sep xs = []) = (xs = [])"
  by (induction sep xs rule: join.induct) auto

lemma conversationText_Nil_iff:
  "(conversationText w = []) = (filter (\<lambda>m. role m = ''user'' \<or> role m = ''assistant'') w = [])"
proof -
  have "[] \<notin> set (filter (\<lambda>s. s \<noteq> []) (map render w))" by simp
  then have "(conversationText w = []) = (filter (\<lambda>s. s \<noteq> []) (map render w) = [])"
    unfolding conversationText_def by (rule join_Nil_iff)
  then show ?thesis by (simp add: rendered_entries)
qed

text \<open>
  C4. The \<open>input\<close> that \<open>buildModelInput\<close> returns is the one the specification describes,
  \<open>spec_input\<close> of the windowed history: the lone user entry's content as it is, and
  otherwise the \<open>User: \<close> and \<open>Assistant: \<close> renderings of the user and assistant entries,
  in their order, each after the first with two line feeds in front of it; entries of any
  other role leave no trace. In particular the two entries
  \<open>{user, "Hi"}, {assistant, "Hello"}\<close> give \<open>User: Hi\n\nAssistant: Hello\<close>, and a longer
  history with an entry of another role gives the three renderings joined in order.
\<close>

theorem formatter_meets_specification:
  "input (buildModelInput raw B) = spec_input (windowed_of (cleaned_of raw B))
   \<and> format_input w = spec_input w
   \<and> format_input [user_msg ''Hi'', assistant_msg ''Hello'']
       = ''User: Hi'' @ [newline, newline] @ ''Assistant: Hello''
   \<and> input (buildModelInput [user_msg ''Hi'', assistant_msg ''Hello''] {})
       = ''User: Hi'' @ [newline, newline] @ ''Assistant: Hello''
   \<and> format_input [user_msg ''a'', \<lparr>role = ''tool'', content = ''x''\<rparr>, assistant_msg ''b'', user_msg ''c'']
       = ''User: a'' @ [newline, newline] @ ''Assistant: b'' @ [newline, newline] @ ''User: c''
   \<and> format_input [user_msg ''2+2?''] = ''2+2?''
   \<and> format_input [assistant_msg ''Hello''] = ''Assistant: Hello''"
proof -
  have "cleaned_of [user_msg ''Hi'', assistant_msg ''Hello''] {} = [user_msg ''Hi'', assistant_msg ''Hello'']"
    by (simp add: sanitize_eval)
  then have "windowed_of (cleaned_of [user_msg ''Hi'', assistant_msg ''Hello''] {})
      = [user_msg ''Hi'', assistant_msg ''Hello'']"
    by (simp add: windowed_of_def)
  moreover have "format_input [user_msg ''Hi'', assistant_msg ''Hello'']
      = ''User: Hi'' @ [newline, newline] @ ''Assistant: Hello''"
    by (simp add: format_input_def conversationText_def render_def msg_defs)
  moreover have "format_input [user_msg ''a'', \<lparr>role = ''tool'', content = ''x''\<rparr>, assistant_msg ''b'', user_msg ''c'']
       = ''User: a'' @ [newline, newline] @ ''Assistant: b'' @ [newline, newline] @ ''User: c''"
    by (simp add: format_input_def conversationText_def render_def msg_defs)
  moreover have "format_input [user_msg ''2+2?''] = ''2+2?''"
    by (simp add: format_input_def msg_defs)
  moreover have "format_input [assistant_msg ''Hello''] = ''Assistant: Hello''"
    by (simp add: format_input_def conversationText_def render_def msg_defs)
  ultimately show ?thesis
    by (simp add: buildModelInput_def format_input_spec)
qed

text \<open>
  C7, as amended. The formatted \<open>input\<close> is empty exactly when the windowed history is a
  single user entry with empty content, or has no user or assistant entry at all (which
  includes the empty history). So a history of two or more entries, one of them a user or
  assistant entry, always gives a non-empty \<open>input\<close>.
\<close>

theorem input_empty_iff:
  "(format_input w = []) =
     (w = [user_msg []]
      \<or> filter (\<lambda>m. role m = ''user'' \<or> role m = ''assistant'') w = [])"
proof (cases "length w = 1 \<and> role (w ! 0) = ''user''")
  case True
  then obtain m where w: "w = [m]" and m: "role m = ''user''"
    by (cases w) auto
  then show ?thesis by (cases m) (auto simp: format_input_def user_msg_def)
next
  case False
  then have "format_input w = conversationText w"
    unfolding format_input_def by (simp only: if_False)
  moreover from False have "w \<noteq> [user_msg []]"
    by (auto simp: user_msg_def)
  ultimately show ?thesis by (simp add: conversationText_Nil_iff)
qed

text \<open>
  C7 as stated fails: the conversation of one user message with empty content has a
  non-empty windowed history, of that one entry, and an empty \<open>input\<close>.
\<close>

theorem input_empty_counterexample:
  "windowed_of (cleaned_of [user_msg []] {}) = [user_msg []]
   \<and> windowed_of (cleaned_of [user_msg []] {}) \<noteq> []
   \<and> input (buildModelInput [user_msg []] {}) = []"
  by (simp add: buildModelInput_def format_input_def windowed_of_def sanitize_eval)

section \<open>The response text\<close>

lemma find_type_clean:
  "scan_is_clean t items \<Longrightarrow> find_type t items = Normal (first_of_type t items)"
  by (induction items) (auto simp: scan_is_clean_def first_of_type_def nullish_def)

lemma typed_is_truthy: "get_prop v ''type'' = Str t \<Longrightarrow> truthy v"
  by (cases v) auto

lemma not_isArray_elements: "\<not> isArray v \<Longrightarrow> elements v = []"
  by (cases v) auto

lemma isArray_truthy: "isArray v \<Longrightarrow> truthy v"
  by (cases v) auto

lemma first_of_type_cases:
  "first_of_type t items = Undefined \<or> get_prop (first_of_type t items) ''type'' = Str t"
  by (auto simp: first_of_type_def find_Some_iff split: option.splits)

lemma shape2_first:
  "shape2 reply =
     get_prop (first_of_type ''output_text''
        (elements (get_prop (first_of_type ''message'' (elements (get_prop reply ''output'')))
           ''content''))) ''text''"
  by (simp add: shape2_def first_of_type_def split: option.splits)

lemma inner_text:
  assumes "scan_is_clean ''output_text'' (elements cont)"
  shows "(if truthy cont \<and> isArray cont then
            (case find_type ''output_text'' (elements cont) of
               Throw e \<Rightarrow> Throw e
             | Normal textContent \<Rightarrow>
                 if truthy textContent \<and> truthy (get_prop textContent ''text'')
                 then Normal (get_prop textContent ''text'')
                 else Normal (Str []))
          else Normal (Str []))
       = Normal (if truthy (get_prop (first_of_type ''output_text'' (elements cont)) ''text'')
                 then get_prop (first_of_type ''output_text'' (elements cont)) ''text''
                 else Str [])"
proof (cases "isArray cont")
  case False
  then show ?thesis by (simp add: not_isArray_elements first_of_type_def)
next
  case True
  from first_of_type_cases [of "''output_text''" "elements cont"]
  show ?thesis
  proof
    assume "first_of_type ''output_text'' (elements cont) = Undefined"
    then show ?thesis
      using True by (simp add: find_type_clean [OF assms] isArray_truthy)
  next
    assume "get_prop (first_of_type ''output_text'' (elements cont)) ''type'' = Str ''output_text''"
    then have "truthy (first_of_type ''output_text'' (elements cont))"
      by (rule typed_is_truthy)
    then show ?thesis
      using True by (simp add: find_type_clean [OF assms] isArray_truthy)
  qed
qed

lemma gpt_oss_text_clean:
  assumes "scans_cleanly resp"
  shows "gpt_oss_text resp = Normal (if truthy (shape2 resp) then shape2 resp else Str [])"
proof (cases "isArray (get_prop resp ''output'')")
  case False
  then show ?thesis
    by (simp add: gpt_oss_text_def shape2_first not_isArray_elements first_of_type_def)
next
  case True
  let ?items = "elements (get_prop resp ''output'')"
  let ?msg = "first_of_type ''message'' ?items"
  from assms have clean: "scan_is_clean ''message'' ?items"
    and inner: "scan_is_clean ''output_text'' (elements (get_prop ?msg ''content''))"
    by (simp_all add: scans_cleanly_def)
  from first_of_type_cases [of "''message''" ?items]
  show ?thesis
  proof
    assume "?msg = Undefined"
    then show ?thesis
      using True by (simp add: gpt_oss_text_def shape2_first find_type_clean [OF clean]
          isArray_truthy first_of_type_def)
  next
    assume "get_prop ?msg ''type'' = Str ''message''"
    then have tr: "truthy ?msg" by (rule typed_is_truthy)
    have "gpt_oss_text resp =
        (if truthy (get_prop ?msg ''content'') \<and> isArray (get_prop ?msg ''content'') then
            (case find_type ''output_text'' (elements (get_prop ?msg ''content'')) of
               Throw e \<Rightarrow> Throw e
             | Normal textContent \<Rightarrow>
                 if truthy textContent \<and> truthy (get_prop textContent ''text'')
                 then Normal (get_prop textContent ''text'')
                 else Normal (Str []))
          else Normal (Str []))"
      using True tr by (simp add: gpt_oss_text_def find_type_clean [OF clean] isArray_truthy)
    also note inner_text [OF inner]
    finally show ?thesis
      by (simp add: shape2_first)
  qed
qed

lemma falsy_index0: "\<not> truthy v \<Longrightarrow> index0 v = Undefined"
  by (cases v) auto

lemma truthy_shape5: "truthy (shape5 resp) \<Longrightarrow> truthy (get_prop resp ''choices'')"
  by (cases "truthy (get_prop resp ''choices'')") (simp_all add: shape5_def falsy_index0)

lemma truthy_shape6: "truthy (shape6 resp) \<Longrightarrow> truthy (get_prop resp ''result'')"
  by (cases "get_prop resp ''result''") (auto simp: shape6_def)

lemma get_opt_chain:
  "get_opt (get_opt v ''message'') ''content'' = get_prop (get_prop v ''message'') ''content''"
  by (cases v; cases "get_prop v ''message''") (auto simp: get_opt_def nullish_def)

lemma fallback_text_shapes:
  "fallback_text resp =
     (if truthy (shape3 resp) then shape3 resp
      else if truthy (shape4 resp) then shape4 resp
      else if truthy (shape5 resp) then shape5 resp
      else if truthy (shape6 resp) then shape6 resp
      else Str ''Error: Could not parse AI response'')"
  using truthy_shape5 [of resp] truthy_shape6 [of resp]
  by (auto simp: fallback_text_def get_opt_chain shape3_def shape4_def shape5_def shape6_def)

lemma handle_returned:
  "AI_run (ai_input raw) = Normal reply \<Longrightarrow>
   handleChatRequest P (Normal raw) AI_run =
     (case extract_text reply of
        Normal responseText \<Rightarrow> success_response responseText
      | Throw e \<Rightarrow> catch_block P e)"
  by (simp add: handleChatRequest_def try_block_def ai_input_def Let_def split: completion.splits)

lemma extract_text_object:
  assumes "js_typeof reply = ''object''" and "reply \<noteq> Null" and "scans_cleanly reply"
  shows "extract_text reply = Normal (first_yield reply)"
proof -
  from assms(1,2) have "truthy reply"
    by (cases reply) auto
  with assms(1) show ?thesis
    by (simp add: extract_text_def gpt_oss_text_clean [OF assms(3)] fallback_text_shapes
        first_yield_def fallback_message_def)
qed

lemma extract_text_string:
  "js_typeof reply = ''string'' \<Longrightarrow> extract_text reply = Normal reply"
  by (simp add: extract_text_def)

text \<open>
  C6, as amended. The handler applies the extraction strategies in a fixed order, each only
  if the ones before it yield nothing, where a shape yields nothing when what it finds is
  not truthy (absent, or the empty text). A reply that is a string is the response text.
  For a reply that is an object or an array and whose scans meet no \<open>null\<close> or \<open>undefined\<close>,
  the response text is what the first of the shapes (2) to (6) that yields something
  finds, and the fallback text when none does. In particular, when shape (2) yields a
  non-empty text for such a reply and the reply also has a text \<open>response\<close> field, the text
  of shape (2) is chosen.
\<close>

theorem extraction_follows_precedence_order:
  assumes "AI_run (ai_input raw) = Normal reply"
  shows "(js_typeof reply = ''string'' \<longrightarrow>
            handleChatRequest P (Normal raw) AI_run = success_response reply)
       \<and> (js_typeof reply = ''object'' \<and> reply \<noteq> Null \<and> scans_cleanly reply \<longrightarrow>
            handleChatRequest P (Normal raw) AI_run = success_response (first_yield reply))
       \<and> (scans_cleanly reply \<and> shape2 reply = Str t \<and> t \<noteq> [] \<and> shape3 reply = Str u \<longrightarrow>
            handleChatRequest P (Normal raw) AI_run = success_response (Str t))"
proof (intro conjI impI)
  note h = handle_returned [of AI_run raw reply P, OF assms]
  {
    assume "js_typeof reply = ''string''"
    then show "handleChatRequest P (Normal raw) AI_run = success_response reply"
      by (simp add: h extract_text_string)
  }
  {
    assume "js_typeof reply = ''object'' \<and> reply \<noteq> Null \<and> scans_cleanly reply"
    then show "handleChatRequest P (Normal raw) AI_run = success_response (first_yield reply)"
      by (simp add: h extract_text_object)
  }
  {
    assume a: "scans_cleanly reply \<and> shape2 reply = Str t \<and> t \<noteq> [] \<and> shape3 reply = Str u"
    have "get_prop reply ''output'' \<noteq> Undefined"
    proof
      assume "get_prop reply ''output'' = Undefined"
      then have "shape2 reply = Undefined" by (simp add: shape2_def)
      with a show False by simp
    qed
    then have obj: "js_typeof reply = ''object''" "reply \<noteq> Null"
      by (cases reply; simp)+
    from a have "first_yield reply = Str t"
      by (simp add: first_yield_def)
    with a obj show "handleChatRequest P (Normal raw) AI_run = success_response (Str t)"
      by (simp add: h extract_text_object)
  }
qed

lemma reply_both_clean: "scans_cleanly reply_both"
  by (simp add: scans_cleanly_def scan_is_clean_def first_of_type_def reply_both_def nullish_def)

lemma reply_both_shape2: "shape2 reply_both = Str ''from output''"
  by (simp add: shape2_def reply_both_def)

theorem extraction_follows_precedence_order_witness:
  "handleChatRequest JSON_parse_model (Normal empty_body) (\<lambda>input. Normal (Str ''plain text''))
     = success_response (Str ''plain text'')
   \<and> handleChatRequest JSON_parse_model (Normal empty_body) (\<lambda>input. Normal reply_empty_text)
     = success_response (first_yield reply_empty_text)
   \<and> first_yield reply_empty_text = Str ''from response''
   \<and> handleChatRequest JSON_parse_model (Normal empty_body) (\<lambda>input. Normal reply_both)
     = success_response (Str ''from output'')"
proof -
  have e: "js_typeof reply_empty_text = ''object'' \<and> reply_empty_text \<noteq> Null
      \<and> scans_cleanly reply_empty_text"
    by (simp add: scans_cleanly_def scan_is_clean_def first_of_type_def reply_empty_text_def)
  have y: "first_yield reply_empty_text = Str ''from response''"
    by (simp add: first_yield_def shape2_def shape3_def reply_empty_text_def)
  have b: "scans_cleanly reply_both \<and> shape2 reply_both = Str ''from output''
      \<and> ''from output'' \<noteq> [] \<and> shape3 reply_both = Str ''from response''"
    using reply_both_clean reply_both_shape2 by (simp add: shape3_def reply_both_def)
  have s: "js_typeof (Str ''plain text'') = ''string''"
    by simp
  from extraction_follows_precedence_order [where AI_run = "\<lambda>input. Normal (Str ''plain text'')" and raw = empty_body
        and reply = "Str ''plain text''" and P = JSON_parse_model] s
  have 1: "handleChatRequest JSON_parse_model (Normal empty_body) (\<lambda>input. Normal (Str ''plain text''))
     = success_response (Str ''plain text'')"
    by blast
  from extraction_follows_precedence_order [where AI_run = "\<lambda>input. Normal reply_empty_text" and raw = empty_body
        and reply = reply_empty_text and P = JSON_parse_model] e
  have 2: "handleChatRequest JSON_parse_model (Normal empty_body) (\<lambda>input. Normal reply_empty_text)
     = success_response (first_yield reply_empty_text)"
    by blast
  from extraction_follows_precedence_order [where AI_run = "\<lambda>input. Normal reply_both" and raw = empty_body
        and reply = reply_both and P = JSON_parse_model and t = "''from output''"
        and u = "''from response''"] b
  have 3: "handleChatRequest JSON_parse_model (Normal empty_body) (\<lambda>input. Normal reply_both)
     = success_response (Str ''from output'')"
    by blast
  from 1 2 3 y show ?thesis by blast
qed

text \<open>
  C6 as stated fails: this reply has an \<open>output\<close> list with a \<open>message\<close> entry whose
  \<open>content\<close> list has an \<open>output_text\<close> entry, and a text \<open>response\<close> field; the text of
  the \<open>output_text\<close> entry is empty, and the handler answers with the \<open>response\<close> field.
\<close>

theorem output_text_precedence_counterexample:
  "shape2 reply_empty_text = Str []
   \<and> shape3 reply_empty_text = Str ''from response''
   \<and> handleChatRequest JSON_parse_model (Normal empty_body) (\<lambda>input. Normal reply_empty_text)
       = success_response (Str ''from response'')"
  by (simp add: shape2_def shape3_def reply_empty_text_def handleChatRequest_def try_block_def
      extract_text_def gpt_oss_text_def fallback_text_def nullish_def)

text \<open>
  C8, as amended. For a reply that is an object or an array, whose scans meet no \<open>null\<close> or
  \<open>undefined\<close>, and for which none of the shapes (2) to (6) yields a truthy value, the
  handler answers with status 200, \<open>success\<close> true and the fixed fallback text.
\<close>

theorem unmatched_object_reply_gets_fallback_text:
  assumes "AI_run (ai_input raw) = Normal reply"
    and "js_typeof reply = ''object''" and "reply \<noteq> Null"
    and "scans_cleanly reply"
    and "\<not> truthy (shape2 reply)" and "\<not> truthy (shape3 reply)" and "\<not> truthy (shape4 reply)"
    and "\<not> truthy (shape5 reply)" and "\<not> truthy (shape6 reply)"
  shows "handleChatRequest P (Normal raw) AI_run = success_response (Str fallback_message)
       \<and> status (success_response (Str fallback_message)) = 200
       \<and> body (success_response (Str fallback_message))
           = Obj [(''response'', Str fallback_message), (''success'', Bool True)]"
proof -
  from assms(5-9) have "first_yield reply = Str fallback_message"
    by (simp add: first_yield_def)
  then have "extract_text reply = Normal (Str fallback_message)"
    by (simp add: extract_text_object [OF assms(2,3,4)])
  then show ?thesis
    using handle_returned [of AI_run raw reply P] assms(1)
    by (simp add: success_response_def)
qed

theorem unmatched_object_reply_gets_fallback_text_witness:
  "handleChatRequest JSON_parse_model (Normal empty_body) (\<lambda>input. Normal reply_unmatched)
     = success_response (Str fallback_message)
   \<and> status (success_response (Str fallback_message)) = 200
   \<and> body (success_response (Str fallback_message))
       = Obj [(''response'', Str fallback_message), (''success'', Bool True)]"
  using unmatched_object_reply_gets_fallback_text [of "\<lambda>input. Normal reply_unmatched" empty_body reply_unmatched JSON_parse_model]
  by (simp add: scans_cleanly_def scan_is_clean_def first_of_type_def reply_unmatched_def nullish_def
      shape2_def shape3_def shape4_def shape5_def shape6_def)

text \<open>
  C8 as stated fails: the reply \<open>null\<close> is matched by none of the shapes (it is not a
  string, and each of the shapes (2) to (6) finds nothing in it), and the handler answers
  with the empty text, not with the fallback text.
\<close>

theorem unmatched_reply_counterexample:
  "js_typeof Null \<noteq> ''string''
   \<and> shape2 Null = Undefined \<and> shape3 Null = Undefined \<and> shape4 Null = Undefined
   \<and> shape5 Null = Undefined \<and> shape6 Null = Undefined
   \<and> handleChatRequest JSON_parse_model (Normal empty_body) (\<lambda>input. Normal Null)
       = success_response (Str [])
   \<and> success_response (Str []) \<noteq> success_response (Str fallback_message)"
  by (simp add: shape2_def shape3_def shape4_def shape5_def shape6_def handleChatRequest_def
      try_block_def extract_text_def success_response_def fallback_message_def)

text \<open>
  C10. For a reply that is neither a string nor an object (\<open>undefined\<close>, \<open>null\<close>, a boolean
  or a number) the handler answers with status 200 and the body
  \<open>{response: "", success: true}\<close>.
\<close>

theorem non_object_reply_gets_empty_text:
  assumes "AI_run (ai_input raw) = Normal reply"
    and "js_typeof reply \<noteq> ''string''"
    and "js_typeof reply \<noteq> ''object'' \<or> reply = Null"
  shows "handleChatRequest P (Normal raw) AI_run = success_response (Str [])
       \<and> status (success_response (Str [])) = 200
       \<and> body (success_response (Str [])) = Obj [(''response'', Str []), (''success'', Bool True)]"
proof -
  from assms(2,3) have "extract_text reply = Normal (Str [])"
    by (auto simp: extract_text_def)
  then show ?thesis
    using handle_returned [of AI_run raw reply P] assms(1)
    by (simp add: success_response_def)
qed

theorem non_object_reply_gets_empty_text_witness:
  "handleChatRequest JSON_parse_model (Normal empty_body) (\<lambda>input. Normal (Num (Finite 42)))
     = success_response (Str [])
   \<and> handleChatRequest JSON_parse_model (Normal empty_body) (\<lambda>input. Normal Null)
     = success_response (Str [])
   \<and> handleChatRequest JSON_parse_model (Normal empty_body) (\<lambda>input. Normal (Bool True))
     = success_response (Str [])
   \<and> status (success_response (Str [])) = 200
   \<and> body (success_response (Str [])) = Obj [(''response'', Str []), (''success'', Bool True)]"
  using non_object_reply_gets_empty_text
      [of "\<lambda>input. Normal (Num (Finite 42))" empty_body "Num (Finite 42)" JSON_parse_model]
    non_object_reply_gets_empty_text
      [of "\<lambda>input. Normal Null" empty_body Null JSON_parse_model]
    non_object_reply_gets_empty_text
      [of "\<lambda>input. Normal (Bool True)" empty_body "Bool True" JSON_parse_model]
  by simp

section \<open>The \<open>catch\<close> block\<close>

lemmas double_eval = nearest_double_def round_at_def scaled_double_def round_half_even_def
  binary_exponent_def pow2_def bit_length.simps

lemmas json_eval = JSON_parse_model_def json_ws_def parse_number_def unsigned_number_def
  fraction_part_def exponent_part_def scale_exponent_def digits_def is_digit_def digits_value_def
  simple_escape_def double_eval

text \<open>
  The rounding on literals of the kinds that matter: integers, a fraction that is no
  double, a literal that rounds to the integer 2016, and the two ties above \<open>2 ^ 53\<close>.
\<close>

lemma nearest_double_examples:
  "nearest_double 2016 1 = Finite 2016
   \<and> nearest_double 25 10 = Finite (5 / 2)
   \<and> nearest_double 1 10 = Finite (3602879701896397 / 36028797018963968)
   \<and> nearest_double 20160000000000000001 10000000000000000 = Finite 2016
   \<and> nearest_double 9007199254740993 1 = Finite 9007199254740992
   \<and> nearest_double 9007199254740995 1 = Finite 9007199254740996"
  by (simp add: double_eval)

lemma rounded_literal:
  "JSON_parse_model ''2016.0000000000000001'' = Some (Num (Finite 2016))"
  by (simp add: json_eval)

lemma regex_match_skip:
  "CHR ''{'' \<notin> set pre \<Longrightarrow> regex_match (pre @ s) = regex_match s"
  by (induction pre) auto

lemma dot_run_plain:
  "list_all plain xs \<Longrightarrow> dot_run (xs @ ys) = xs @ dot_run ys"
  by (induction xs) (auto simp: plain_def line_terminator_at_def)

lemma dropWhile_to_first:
  "x \<notin> set ys \<Longrightarrow> dropWhile (\<lambda>c. c \<noteq> x) (ys @ x # zs) = x # zs"
  by (induction ys) auto

lemma upto_last_brace_closed:
  "CHR ''}'' \<notin> set run \<Longrightarrow> upto_last_brace (xs @ CHR ''}'' # run) = xs @ [CHR ''}'']"
  using dropWhile_to_first [of "CHR ''}''" "rev run" "rev xs"]
  by (simp add: upto_last_brace_def)

lemma dot_run_brace: "dot_run (CHR ''}'' # post) = CHR ''}'' # dot_run post"
  by (simp add: line_terminator_at_def)

lemma regex_match_embedded:
  assumes "CHR ''{'' \<notin> set pre" and "CHR ''}'' \<notin> set (dot_run post)" and "list_all plain mid"
  shows "regex_match (pre @ (CHR ''{'' # mid @ [CHR ''}'']) @ post) = Some (CHR ''{'' # mid @ [CHR ''}''])"
proof -
  have run: "dot_run (mid @ CHR ''}'' # post) = mid @ CHR ''}'' # dot_run post"
    using assms(3) by (simp add: dot_run_plain line_terminator_at_def)
  have "regex_match (CHR ''{'' # mid @ CHR ''}'' # post) = Some (CHR ''{'' # mid @ [CHR ''}''])"
    using assms(2) by (simp add: run upto_last_brace_closed)
  then show ?thesis
    using regex_match_skip [OF assms(1)] by simp
qed

lemma fragment_plain: "list_all plain code \<Longrightarrow> list_all plain (fragment_body code)"
  by (simp add: fragment_body_def plain_def)

lemma regex_match_fragment:
  assumes "CHR ''{'' \<notin> set pre" and "CHR ''}'' \<notin> set (dot_run post)" and "list_all plain code"
  shows "regex_match (pre @ gateway_fragment code @ post) = Some (gateway_fragment code)"
  unfolding gateway_fragment_def
  using assms(1,2) fragment_plain [OF assms(3)] by (rule regex_match_embedded)

lemma coded_is_truthy: "get_prop v ''code'' = Num n \<Longrightarrow> truthy v"
  by (cases v) auto

lemma message_bearer:
  "get_prop error ''message'' = Str message \<Longrightarrow> truthy error \<and> js_typeof error = ''object''"
  by (cases error) auto

lemma catch_block_code:
  assumes "get_prop error ''message'' = Str message"
  shows "catch_block P error =
     (if get_prop (gateway_error_of P error) ''code'' = Num (Finite 2016)
        then prompt_blocked_response
      else if get_prop (gateway_error_of P error) ''code'' = Num (Finite 2017)
        then response_blocked_response
      else generic_failure_response)"
  using coded_is_truthy [of "gateway_error_of P error"] message_bearer [OF assms]
  by (simp add: catch_block_def Let_def)

lemma nullish_no_array: "nullish v \<Longrightarrow> \<not> isArray (get_prop v k)"
  by (auto simp: nullish_def)

lemma gateway_error_none:
  "get_prop error ''message'' = Str message \<Longrightarrow> regex_match message = None \<Longrightarrow>
   gateway_error_of P error = Null"
  by (simp add: gateway_error_of_def)

lemma gateway_error_unparsed:
  "get_prop error ''message'' = Str message \<Longrightarrow> regex_match message = Some m \<Longrightarrow> P m = None \<Longrightarrow>
   gateway_error_of P error = Null"
  by (simp add: gateway_error_of_def)

lemma gateway_error_parsed:
  assumes "get_prop error ''message'' = Str message"
    and "regex_match message = Some m" and "P m = Some parsed"
  shows "gateway_error_of P error =
     (if isArray (get_prop parsed ''error'') then index0 (get_prop parsed ''error'') else Null)"
proof -
  from assms(2) have "message \<noteq> []" by auto
  then show ?thesis
    using assms nullish_no_array [of parsed "''error''"] isArray_truthy [of "get_prop parsed ''error''"]
    by (auto simp: gateway_error_of_def)
qed

lemma handle_thrown:
  "try_block request_json AI_run = Throw e \<Longrightarrow>
   handleChatRequest P request_json AI_run = catch_block P e"
  by (simp add: handleChatRequest_def)

lemma value_code: "get_prop (index0 (get_prop (gateway_value c) ''error'')) ''code'' = Num (Finite c)"
  by (simp add: gateway_value_def)

lemma value_array: "isArray (get_prop (gateway_value c) ''error'')"
  by (simp add: gateway_value_def)

lemma parse_2016: "JSON_parse_model (gateway_fragment ''2016'') = Some (gateway_value 2016)"
  by (simp add: gateway_fragment_def fragment_body_def gateway_value_def json_eval)

lemma parse_2017: "JSON_parse_model (gateway_fragment ''2017'') = Some (gateway_value 2017)"
  by (simp add: gateway_fragment_def fragment_body_def gateway_value_def json_eval)

lemmas regex_eval = line_terminator_at_def upto_last_brace_def gateway_fragment_def fragment_body_def

lemma try_block_thrown:
  "try_block (Normal raw) (\<lambda>input. Throw e) = Throw e"
  by (simp add: try_block_def Let_def)

lemma prompt_blocked_facts:
  "status prompt_blocked_response = 400
   \<and> get_prop (body prompt_blocked_response) ''error'' = Str ''Prompt Blocked by Security Policy''
   \<and> get_prop (body prompt_blocked_response) ''errorType'' = Str ''prompt_blocked''"
  by (simp add: prompt_blocked_response_def)

lemma response_blocked_facts:
  "status response_blocked_response = 400
   \<and> get_prop (body response_blocked_response) ''error'' = Str ''Response Blocked by Security Policy''
   \<and> get_prop (body response_blocked_response) ''errorType'' = Str ''response_blocked''"
  by (simp add: response_blocked_response_def)

lemma generic_failure_facts:
  "status generic_failure_response = 500
   \<and> body generic_failure_response = Obj [(''error'', Str ''Failed to process request'')]"
  by (simp add: generic_failure_response_def)

lemma ai_error_message: "get_prop (ai_error message) ''message'' = Str message"
  by (simp add: ai_error_def)

text \<open>
  C2, as amended. Let the \<open>try\<close> block throw a value whose \<open>message\<close> is a string, whatever
  else it carries. If the text that \<open>/\{.*\}/\<close> matches in the message is the fragment
  \<open>{"error":[{"code":2016,"message":"x"}]}\<close>, which \<open>JSON.parse\<close> reads as the evident
  value, the handler answers with status 400, the error label
  \<open>Prompt Blocked by Security Policy\<close> and the error type \<open>prompt_blocked\<close>; with code 2017,
  with status 400, the label \<open>Response Blocked by Security Policy\<close> and the type
  \<open>response_blocked\<close>. If nothing matches, or \<open>JSON.parse\<close> throws on the match, or the
  code of the first entry of the parsed \<open>error\<close> is neither the number 2016 nor 2017, it
  answers with status 500 and the body \<open>{"error": "Failed to process request"}\<close>. The
  fragment is the match whenever the message has no \<open>{\<close> before it and no \<open>}\<close> after it on
  the same line.
\<close>

theorem gateway_error_responses:
  assumes "try_block request_json AI_run = Throw error"
    and "get_prop error ''message'' = Str message"
  shows "(regex_match message = Some (gateway_fragment ''2016'')
            \<and> P (gateway_fragment ''2016'') = Some (gateway_value 2016) \<longrightarrow>
          status (handleChatRequest P request_json AI_run) = 400
          \<and> get_prop (body (handleChatRequest P request_json AI_run)) ''error''
              = Str ''Prompt Blocked by Security Policy''
          \<and> get_prop (body (handleChatRequest P request_json AI_run)) ''errorType''
              = Str ''prompt_blocked''
          \<and> handleChatRequest P request_json AI_run = prompt_blocked_response)
       \<and> (regex_match message = Some (gateway_fragment ''2017'')
            \<and> P (gateway_fragment ''2017'') = Some (gateway_value 2017) \<longrightarrow>
          status (handleChatRequest P request_json AI_run) = 400
          \<and> get_prop (body (handleChatRequest P request_json AI_run)) ''error''
              = Str ''Response Blocked by Security Policy''
          \<and> get_prop (body (handleChatRequest P request_json AI_run)) ''errorType''
              = Str ''response_blocked''
          \<and> handleChatRequest P request_json AI_run = response_blocked_response)
       \<and> (regex_match message = None
            \<or> (regex_match message = Some m \<and> P m = None)
            \<or> (regex_match message = Some m \<and> P m = Some parsed
                \<and> get_prop (index0 (get_prop parsed ''error'')) ''code'' \<noteq> Num (Finite 2016)
                \<and> get_prop (index0 (get_prop parsed ''error'')) ''code'' \<noteq> Num (Finite 2017)) \<longrightarrow>
          status (handleChatRequest P request_json AI_run) = 500
          \<and> body (handleChatRequest P request_json AI_run)
              = Obj [(''error'', Str ''Failed to process request'')]
          \<and> handleChatRequest P request_json AI_run = generic_failure_response)
       \<and> (CHR ''{'' \<notin> set pre \<and> CHR ''}'' \<notin> set (dot_run post) \<longrightarrow>
            regex_match (pre @ gateway_fragment ''2016'' @ post) = Some (gateway_fragment ''2016'')
            \<and> regex_match (pre @ gateway_fragment ''2017'' @ post) = Some (gateway_fragment ''2017''))"
proof (intro conjI impI)
  have h: "handleChatRequest P request_json AI_run = catch_block P error"
    using assms(1) by (rule handle_thrown)
  note c = catch_block_code [OF assms(2), of P]
  {
    assume "regex_match message = Some (gateway_fragment ''2016'')
            \<and> P (gateway_fragment ''2016'') = Some (gateway_value 2016)"
    then have r: "handleChatRequest P request_json AI_run = prompt_blocked_response"
      by (simp add: h c gateway_error_parsed [OF assms(2)] value_code value_array)
    then show "handleChatRequest P request_json AI_run = prompt_blocked_response" .
    from r show "status (handleChatRequest P request_json AI_run) = 400"
      and "get_prop (body (handleChatRequest P request_json AI_run)) ''error''
              = Str ''Prompt Blocked by Security Policy''"
      and "get_prop (body (handleChatRequest P request_json AI_run)) ''errorType''
              = Str ''prompt_blocked''"
      using prompt_blocked_facts by simp_all
  }
  {
    assume "regex_match message = Some (gateway_fragment ''2017'')
            \<and> P (gateway_fragment ''2017'') = Some (gateway_value 2017)"
    then have r: "handleChatRequest P request_json AI_run = response_blocked_response"
      by (simp add: h c gateway_error_parsed [OF assms(2)] value_code value_array)
    then show "handleChatRequest P request_json AI_run = response_blocked_response" .
    from r show "status (handleChatRequest P request_json AI_run) = 400"
      and "get_prop (body (handleChatRequest P request_json AI_run)) ''error''
              = Str ''Response Blocked by Security Policy''"
      and "get_prop (body (handleChatRequest P request_json AI_run)) ''errorType''
              = Str ''response_blocked''"
      using response_blocked_facts by simp_all
  }
  {
    assume a: "regex_match message = None
            \<or> (regex_match message = Some m \<and> P m = None)
            \<or> (regex_match message = Some m \<and> P m = Some parsed
                \<and> get_prop (index0 (get_prop parsed ''error'')) ''code'' \<noteq> Num (Finite 2016)
                \<and> get_prop (index0 (get_prop parsed ''error'')) ''code'' \<noteq> Num (Finite 2017))"
    have "get_prop (gateway_error_of P error) ''code'' \<noteq> Num (Finite 2016)
        \<and> get_prop (gateway_error_of P error) ''code'' \<noteq> Num (Finite 2017)"
      using a
      by (auto simp: gateway_error_none [OF assms(2)] gateway_error_unparsed [OF assms(2)]
          gateway_error_parsed [OF assms(2)] split: if_splits)
    then have r: "handleChatRequest P request_json AI_run = generic_failure_response"
      by (simp add: h c)
    then show "handleChatRequest P request_json AI_run = generic_failure_response" .
    from r show "status (handleChatRequest P request_json AI_run) = 500"
      and "body (handleChatRequest P request_json AI_run)
              = Obj [(''error'', Str ''Failed to process request'')]"
      using generic_failure_facts by simp_all
  }
  have p16: "list_all plain ''2016''" and p17: "list_all plain ''2017''"
    by (simp_all add: plain_def)
  {
    assume a: "CHR ''{'' \<notin> set pre \<and> CHR ''}'' \<notin> set (dot_run post)"
    then show "regex_match (pre @ gateway_fragment ''2016'' @ post) = Some (gateway_fragment ''2016'')"
      using regex_match_fragment [OF _ _ p16, of pre post] by simp
    from a show "regex_match (pre @ gateway_fragment ''2017'' @ post) = Some (gateway_fragment ''2017'')"
      using regex_match_fragment [OF _ _ p17, of pre post] by simp
  }
qed

theorem gateway_error_responses_witness:
  "handleChatRequest JSON_parse_model (Normal empty_body)
     (\<lambda>input. Throw (ai_error (''AiError: 2016: '' @ gateway_fragment ''2016'' @ '' (blocked)'')))
     = prompt_blocked_response
   \<and> status prompt_blocked_response = 400
   \<and> handleChatRequest JSON_parse_model (Normal empty_body)
     (\<lambda>input. Throw (ai_error (''AiError: 2017: '' @ gateway_fragment ''2017'' @ '' (blocked)'')))
     = response_blocked_response
   \<and> status response_blocked_response = 400
   \<and> handleChatRequest JSON_parse_model (Normal empty_body)
     (\<lambda>input. Throw (ai_error ''Network connection lost.''))
     = generic_failure_response
   \<and> handleChatRequest JSON_parse_model (Normal empty_body)
     (\<lambda>input. Throw (ai_error ''unknown model {name}''))
     = generic_failure_response
   \<and> handleChatRequest JSON_parse_model (Normal empty_body)
     (\<lambda>input. Throw (ai_error (''AiError: '' @ gateway_fragment ''3040'')))
     = generic_failure_response
   \<and> status generic_failure_response = 500"
proof -
  let ?m16 = "''AiError: 2016: '' @ gateway_fragment ''2016'' @ '' (blocked)''"
  let ?m17 = "''AiError: 2017: '' @ gateway_fragment ''2017'' @ '' (blocked)''"
  let ?m0 = "''Network connection lost.''"
  let ?m1 = "''unknown model {name}''"
  let ?m2 = "''AiError: '' @ gateway_fragment ''3040''"
  have side: "CHR ''{'' \<notin> set ''AiError: 2016: '' \<and> CHR ''}'' \<notin> set (dot_run '' (blocked)'')"
      "CHR ''{'' \<notin> set ''AiError: 2017: '' \<and> CHR ''}'' \<notin> set (dot_run '' (blocked)'')"
    by (simp_all add: line_terminator_at_def)
  have r16: "regex_match ?m16 = Some (gateway_fragment ''2016'')"
    using gateway_error_responses [where request_json = "Normal empty_body"
        and AI_run = "\<lambda>input. Throw (ai_error ?m0)" and error = "ai_error ?m0"
        and message = "?m0" and P = JSON_parse_model
        and pre = "''AiError: 2016: ''" and post = "'' (blocked)''",
        OF try_block_thrown ai_error_message] side
    by blast
  have r17: "regex_match ?m17 = Some (gateway_fragment ''2017'')"
    using gateway_error_responses [where request_json = "Normal empty_body"
        and AI_run = "\<lambda>input. Throw (ai_error ?m0)" and error = "ai_error ?m0"
        and message = "?m0" and P = JSON_parse_model
        and pre = "''AiError: 2017: ''" and post = "'' (blocked)''",
        OF try_block_thrown ai_error_message] side
    by blast
  have r0: "regex_match ?m0 = None"
    by (simp add: regex_eval)
  have r1: "regex_match ?m1 = Some ''{name}''"
    by (simp add: regex_eval)
  have p1: "JSON_parse_model ''{name}'' = None"
    by (simp add: json_eval)
  have r2: "regex_match ?m2 = Some (gateway_fragment ''3040'')"
    by (simp add: regex_eval)
  have p2: "JSON_parse_model (gateway_fragment ''3040'') = Some (gateway_value 3040)"
    by (simp add: gateway_fragment_def fragment_body_def gateway_value_def json_eval)
  have c2: "get_prop (index0 (get_prop (gateway_value 3040) ''error'')) ''code'' \<noteq> Num (Finite 2016)
      \<and> get_prop (index0 (get_prop (gateway_value 3040) ''error'')) ''code'' \<noteq> Num (Finite 2017)"
    by (simp add: value_code)
  from gateway_error_responses [where request_json = "Normal empty_body"
        and AI_run = "\<lambda>input. Throw (ai_error ?m16)" and error = "ai_error ?m16"
        and message = "?m16" and P = JSON_parse_model,
        OF try_block_thrown ai_error_message] r16 parse_2016
  have a: "handleChatRequest JSON_parse_model (Normal empty_body) (\<lambda>input. Throw (ai_error ?m16))
      = prompt_blocked_response
      \<and> status (handleChatRequest JSON_parse_model (Normal empty_body) (\<lambda>input. Throw (ai_error ?m16))) = 400"
    by blast
  from gateway_error_responses [where request_json = "Normal empty_body"
        and AI_run = "\<lambda>input. Throw (ai_error ?m17)" and error = "ai_error ?m17"
        and message = "?m17" and P = JSON_parse_model,
        OF try_block_thrown ai_error_message] r17 parse_2017
  have b: "handleChatRequest JSON_parse_model (Normal empty_body) (\<lambda>input. Throw (ai_error ?m17))
      = response_blocked_response
      \<and> status (handleChatRequest JSON_parse_model (Normal empty_body) (\<lambda>input. Throw (ai_error ?m17))) = 400"
    by blast
  from gateway_error_responses [where request_json = "Normal empty_body"
        and AI_run = "\<lambda>input. Throw (ai_error ?m0)" and error = "ai_error ?m0"
        and message = "?m0" and P = JSON_parse_model,
        OF try_block_thrown ai_error_message] r0
  have c: "handleChatRequest JSON_parse_model (Normal empty_body) (\<lambda>input. Throw (ai_error ?m0))
      = generic_failure_response
      \<and> status (handleChatRequest JSON_parse_model (Normal empty_body) (\<lambda>input. Throw (ai_error ?m0))) = 500"
    by blast
  from gateway_error_responses [where request_json = "Normal empty_body"
        and AI_run = "\<lambda>input. Throw (ai_error ?m1)" and error = "ai_error ?m1"
        and message = "?m1" and P = JSON_parse_model and m = "''{name}''",
        OF try_block_thrown ai_error_message] r1 p1
  have d: "handleChatRequest JSON_parse_model (Normal empty_body) (\<lambda>input. Throw (ai_error ?m1))
      = generic_failure_response"
    by blast
  from gateway_error_responses [where request_json = "Normal empty_body"
        and AI_run = "\<lambda>input. Throw (ai_error ?m2)" and error = "ai_error ?m2"
        and message = "?m2" and P = JSON_parse_model
        and m = "gateway_fragment ''3040''" and parsed = "gateway_value 3040",
        OF try_block_thrown ai_error_message] r2 p2 c2
  have e: "handleChatRequest JSON_parse_model (Normal empty_body) (\<lambda>input. Throw (ai_error ?m2))
      = generic_failure_response"
    by blast
  from a b c d e show ?thesis by metis
qed

text \<open>
  C2 as stated fails: this message contains the fragment with code 2016, but the match
  starts at the earlier \<open>{\<close>, is not JSON, and the handler answers with status 500.
\<close>

theorem gateway_error_counterexample:
  "JSON_parse_model (gateway_fragment ''2016'') = Some (gateway_value 2016)
   \<and> handleChatRequest JSON_parse_model (Normal empty_body)
     (\<lambda>input. Throw (ai_error (''upstream {gateway} failed: '' @ gateway_fragment ''2016'')))
     = generic_failure_response
   \<and> status generic_failure_response = 500
   \<and> status prompt_blocked_response = 400"
proof -
  let ?m = "''upstream {gateway} failed: '' @ gateway_fragment ''2016''"
  have r: "regex_match ?m = Some (''{gateway} failed: '' @ gateway_fragment ''2016'')"
    by (simp add: regex_eval)
  have p: "JSON_parse_model (''{gateway} failed: '' @ gateway_fragment ''2016'') = None"
    by (simp add: gateway_fragment_def fragment_body_def json_eval)
  have "catch_block JSON_parse_model (ai_error ?m) = generic_failure_response"
    using r p
    by (simp add: catch_block_code [OF ai_error_message] gateway_error_unparsed [OF ai_error_message])
  then show ?thesis
    using parse_2016
    by (simp add: handle_thrown [OF try_block_thrown] generic_failure_response_def
        prompt_blocked_response_def)
qed

section \<open>The tokenizer of the model of \<open>JSON.parse\<close> has fuel enough\<close>

text \<open>
  Every step of \<open>tokenize\<close> consumes at least one \<^typ>\<open>char\<close>, so the fuel that
  \<open>JSON_parse_model\<close> gives it, the length of the text, is never used up: more fuel gives
  the same result, and \<open>None\<close> always stands for a text that is not JSON.
\<close>

lemma parse_string_shorter:
  "parse_string cs = Some (x, r) \<Longrightarrow> length r < length cs"
proof (induction cs arbitrary: x r rule: parse_string.induct)
  case 1
  then show ?case by simp
next
  case (2 c cs)
  show ?case
  proof (cases "c = CHR 0x22")
    case True
    with "2.prems" show ?thesis by simp
  next
    case quote: False
    show ?thesis
    proof (cases "c = CHR 0x5C")
      case False
      with quote "2.prems" "2.IH"(3) show ?thesis
        by (fastforce split: if_splits)
    next
      case True
      with quote "2.prems" obtain e es where cs: "cs = e # es"
        by (cases cs) auto
      show ?thesis
      proof (cases "e = CHR ''u''")
        case False
        with quote True cs "2.prems" "2.IH"(2) [OF quote True cs False] show ?thesis
          by (fastforce split: option.splits)
      next
        case u: True
        with quote True cs "2.prems" obtain h1 h2 h3 h4 rest where es: "es = h1 # h2 # h3 # h4 # rest"
          by (auto split: list.splits)
        with quote True cs u "2.prems" "2.IH"(1) [OF quote True cs u es] show ?thesis
          by (fastforce split: option.splits)
      qed
    qed
  qed
qed

lemma scale_exponent_shorter:
  "scale_exponent neg m (digits s) = Some (q, r) \<Longrightarrow> length r \<le> length s"
  by (auto simp: scale_exponent_def digits_def length_dropWhile_le split: if_splits)

lemma exponent_part_shorter:
  assumes "exponent_part m s = Some (q, r)"
  shows "length r \<le> length s"
proof (cases s)
  case Nil
  with assms show ?thesis by (simp add: exponent_part_def)
next
  case (Cons c cs)
  show ?thesis
  proof (cases "c = CHR ''e'' \<or> c = CHR ''E''")
    case False
    with assms Cons show ?thesis by (simp add: exponent_part_def)
  next
    case True
    with assms Cons obtain d ds where cs: "cs = d # ds"
      by (cases cs) (auto simp: exponent_part_def)
    from assms Cons True cs
    have "scale_exponent True m (digits ds) = Some (q, r)
        \<or> scale_exponent False m (digits ds) = Some (q, r)
        \<or> scale_exponent False m (digits cs) = Some (q, r)"
      by (auto simp: exponent_part_def split: if_splits)
    then have "length r \<le> length ds \<or> length r \<le> length cs"
      using scale_exponent_shorter by blast
    with Cons cs show ?thesis by auto
  qed
qed

lemma fraction_part_shorter:
  assumes "fraction_part ip s = Some (q, r)"
  shows "length r \<le> length s"
proof (cases s)
  case Nil
  with assms show ?thesis by (simp add: fraction_part_def)
next
  case (Cons c cs)
  show ?thesis
  proof (cases "c = CHR ''.''")
    case False
    with assms Cons have "exponent_part (digits_value ip, 1) s = Some (q, r)"
      by (simp add: fraction_part_def)
    then show ?thesis by (rule exponent_part_shorter)
  next
    case True
    with assms Cons obtain m where "exponent_part m (dropWhile is_digit cs) = Some (q, r)"
      by (auto simp: fraction_part_def digits_def split: if_splits)
    then have "length r \<le> length (dropWhile is_digit cs)"
      by (rule exponent_part_shorter)
    also have "\<dots> \<le> length cs" by (rule length_dropWhile_le)
    finally show ?thesis using Cons by simp
  qed
qed

lemma unsigned_number_shorter:
  assumes "unsigned_number s = Some (q, r)"
  shows "length r < length s"
proof -
  from assms have ip: "takeWhile is_digit s \<noteq> []"
    and f: "fraction_part (takeWhile is_digit s) (dropWhile is_digit s) = Some (q, r)"
    by (auto simp: unsigned_number_def digits_def split: if_splits)
  from f have "length r \<le> length (dropWhile is_digit s)"
    by (rule fraction_part_shorter)
  moreover have "length (takeWhile is_digit s) + length (dropWhile is_digit s) = length s"
    by (simp flip: length_append)
  moreover from ip have "0 < length (takeWhile is_digit s)" by simp
  ultimately show ?thesis by linarith
qed

lemma parse_number_shorter:
  assumes "parse_number s = Some (v, r)"
  shows "length r < length s"
proof (cases s)
  case Nil
  with assms show ?thesis by (simp add: parse_number_def)
next
  case (Cons c cs)
  with assms obtain q where "unsigned_number cs = Some (q, r) \<or> unsigned_number s = Some (q, r)"
    by (auto simp: parse_number_def split: if_splits)
  then have "length r < length cs \<or> length r < length s"
    using unsigned_number_shorter by blast
  with Cons show ?thesis by auto
qed

lemma tokenize_more_fuel:
  "length s \<le> k \<Longrightarrow> tokenize (Suc k) s = tokenize k s"
proof (induction k arbitrary: s)
  case 0
  then show ?case by simp
next
  case (Suc k)
  show ?case
  proof (cases s)
    case Nil
    then show ?thesis by simp
  next
    case (Cons c cs)
    with Suc.prems have len: "length cs \<le> k" by simp
    have step: "\<And>r. length r \<le> length cs \<Longrightarrow> tokenize (Suc k) r = tokenize k r"
      using Suc.IH len by simp
    have str: "\<And>x r. parse_string cs = Some (x, r) \<Longrightarrow> tokenize (Suc k) r = tokenize k r"
      using step parse_string_shorter by (meson less_imp_le_nat)
    have num: "\<And>v r. parse_number (c # cs) = Some (v, r) \<Longrightarrow> tokenize (Suc k) r = tokenize k r"
    proof -
      fix v r assume "parse_number (c # cs) = Some (v, r)"
      then have "length r < length (c # cs)" by (rule parse_number_shorter)
      then show "tokenize (Suc k) r = tokenize k r" using step by simp
    qed
    show ?thesis
      unfolding Cons
      by (simp add: step str num split: option.splits prod.splits)
  qed
qed

lemma tokenize_enough_fuel:
  "length s \<le> k \<Longrightarrow> tokenize k s = tokenize (length s) s"
proof (induction k)
  case 0
  then show ?case by simp
next
  case (Suc k)
  show ?case
  proof (cases "length s \<le> k")
    case True
    with Suc.IH tokenize_more_fuel [OF True] show ?thesis by simp
  next
    case False
    with Suc.prems have "length s = Suc k" by simp
    then show ?thesis by simp
  qed
qed

end
